theory Spec2Isabelle
  imports Main
begin

section \<open>JavaScript strings\<close>

text \<open>
  A JavaScript string is a sequence of UTF-16 code units. A code unit is modelled by its
  number (below 65536 in a real string; nothing below depends on the bound);
  \<open>js\<close> embeds an ASCII literal, so that \<open>js ''[]''\<close> is the string of the two
  code units 91 and 93.
\<close>

type_synonym jsstring = "nat list"

definition js :: "string \<Rightarrow> jsstring" where
  "js s = map of_char s"

text \<open>
  The code units that \<open>String.prototype.trim\<close> removes and that \<open>\s\<close> matches in a
  regular expression: WhiteSpace and LineTerminator of ECMA-262 (tab, line feed, vertical
  tab, form feed, carriage return, space, no-break space, U+1680, U+2000 to U+200A,
  U+2028, U+2029, U+202F, U+205F, U+3000 and U+FEFF).
\<close>

definition isWhiteSpace :: "nat \<Rightarrow> bool" where
  "isWhiteSpace c \<longleftrightarrow>
     c = 9 \<or> c = 10 \<or> c = 11 \<or> c = 12 \<or> c = 13 \<or> c = 32 \<or> c = 160 \<or> c = 5760 \<or>
     (8192 \<le> c \<and> c \<le> 8202) \<or> c = 8232 \<or> c = 8233 \<or> c = 8239 \<or> c = 8287 \<or>
     c = 12288 \<or> c = 65279"

definition trimStart :: "jsstring \<Rightarrow> jsstring" where
  "trimStart s = dropWhile isWhiteSpace s"

definition trimEnd :: "jsstring \<Rightarrow> jsstring" where
  "trimEnd s = rev (dropWhile isWhiteSpace (rev s))"

definition trim :: "jsstring \<Rightarrow> jsstring" where
  "trim s = trimEnd (trimStart s)"

section \<open>Data model (types.ts)\<close>

text \<open>
  \<open>QuizOption\<close> and \<open>QuizQuestion\<close>. Both interfaces call their identifier \<open>id\<close>;
  the fields are named \<open>optionId\<close> and \<open>questionId\<close> here, after the parameters
  that carry them in the components, and the option's \<open>text\<close> is \<open>optionText\<close>.
  The type of the two text fields is a parameter: the interfaces declare \<open>string\<close>,
  which is what the editor works on, while the response parser stores whatever value
  the JSON of the response holds there (the types are erased at run time).
\<close>

record 't QuizOption =
  optionId :: jsstring
  optionText :: 't
  isCorrect :: bool

record 't QuizQuestion =
  questionId :: jsstring
  questionText :: 't
  options :: "'t QuizOption list"
  isMultipleChoice :: bool

text \<open>\<open>Array.prototype.findIndex\<close>; \<open>None\<close> stands for \<open>-1\<close>.\<close>

fun findIndex :: "('a \<Rightarrow> bool) \<Rightarrow> 'a list \<Rightarrow> nat option" where
  "findIndex P [] = None"
| "findIndex P (x # xs) = (if P x then Some 0 else map_option Suc (findIndex P xs))"

section \<open>The question editor (QuestionEditorCard)\<close>

text \<open>
  The component's props and state: the \<open>question\<close> prop and the two pieces of local
  state, \<open>editedQuestionText\<close> and \<open>editedOptions\<close>.
\<close>

record editor =
  question :: "jsstring QuizQuestion"
  editedQuestionText :: jsstring
  editedOptions :: "jsstring QuizOption list"

text \<open>
  The initial state and the effect hook that runs whenever the \<open>question\<close> prop
  changes: both set the local state from the prop. The deep copy through
  \<open>JSON.parse(JSON.stringify(...))\<close> is the identity on records of strings and booleans.
\<close>

definition resetFromQuestion :: "jsstring QuizQuestion \<Rightarrow> editor" where
  "resetFromQuestion q =
     \<lparr>question = q, editedQuestionText = questionText q, editedOptions = options q\<rparr>"

definition handleQuestionTextChange :: "jsstring \<Rightarrow> editor \<Rightarrow> editor" where
  "handleQuestionTextChange newText e = e\<lparr>editedQuestionText := newText\<rparr>"

definition handleOptionTextChange :: "jsstring \<Rightarrow> jsstring \<Rightarrow> editor \<Rightarrow> editor" where
  "handleOptionTextChange oid newText e =
     e\<lparr>editedOptions :=
         map (\<lambda>opt. if optionId opt = oid then opt\<lparr>optionText := newText\<rparr> else opt)
           (editedOptions e)\<rparr>"

definition handleOptionCorrectChange :: "jsstring \<Rightarrow> editor \<Rightarrow> editor" where
  "handleOptionCorrectChange oid e =
     (case findIndex (\<lambda>opt. optionId opt = oid) (editedOptions e) of
        None \<Rightarrow> e
      | Some targetOptionIndex \<Rightarrow>
          let updatedOptions =
                (if \<not> isMultipleChoice (question e)
                    \<and> \<not> isCorrect (editedOptions e ! targetOptionIndex)
                 then map (\<lambda>opt. opt\<lparr>isCorrect := False\<rparr>) (editedOptions e)
                 else editedOptions e);
              target = updatedOptions ! targetOptionIndex
          in e\<lparr>editedOptions :=
                 updatedOptions[targetOptionIndex := target\<lparr>isCorrect := \<not> isCorrect target\<rparr>]\<rparr>)"

definition deleteOption :: "jsstring \<Rightarrow> editor \<Rightarrow> editor" where
  "deleteOption oid e =
     (if length (editedOptions e) \<le> 2 then e
      else e\<lparr>editedOptions := filter (\<lambda>opt. optionId opt \<noteq> oid) (editedOptions e)\<rparr>)"

text \<open>
  The \<open>map\<close> callback of \<open>handleSaveChanges\<close> with its mutable flag
  \<open>firstCorrectFound\<close>, threaded through the traversal.
\<close>

fun keepFirstCorrect :: "bool \<Rightarrow> 't QuizOption list \<Rightarrow> 't QuizOption list" where
  "keepFirstCorrect firstCorrectFound [] = []"
| "keepFirstCorrect firstCorrectFound (opt # rest) =
     (if isCorrect opt then
        (if \<not> firstCorrectFound then opt # keepFirstCorrect True rest
         else opt\<lparr>isCorrect := False\<rparr> # keepFirstCorrect firstCorrectFound rest)
      else opt # keepFirstCorrect firstCorrectFound rest)"

text \<open>
  \<open>handleSaveChanges\<close> returns the editor's new local state and the question passed to
  \<open>onQuestionChange\<close>; \<open>None\<close> is a save rejected with an alert. An empty string
  is the only falsy string, so \<open>!s.trim()\<close> is \<open>trim s = []\<close>.
\<close>

definition handleSaveChanges :: "editor \<Rightarrow> editor \<times> jsstring QuizQuestion option" where
  "handleSaveChanges e =
     (if trim (editedQuestionText e) = [] then (e, None)
      else if list_ex (\<lambda>opt. trim (optionText opt) = []) (editedOptions e) then (e, None)
      else
        let correctOptionsCount = length (filter isCorrect (editedOptions e)) in
        if correctOptionsCount = 0 then (e, None)
        else if \<not> isMultipleChoice (question e) \<and> correctOptionsCount > 1 then
          let correctedOptions = keepFirstCorrect False (editedOptions e) in
          (e\<lparr>editedOptions := correctedOptions\<rparr>,
           Some ((question e)\<lparr>questionText := editedQuestionText e,
                              options := correctedOptions\<rparr>))
        else
          (e, Some ((question e)\<lparr>questionText := editedQuestionText e,
                                 options := editedOptions e\<rparr>)))"

text \<open>
  One editing step on a card, and what follows from it: a committed save goes to
  \<open>handleUpdateQuestion\<close> of the store, which (unless the quiz is validated) puts
  the updated question in the place of every question with its identifier, the card's
  own among them, and the effect hook then resets the card's local state from the new
  \<open>question\<close> prop. A step is not restricted to what a read-only card still offers.
\<close>

datatype action =
    QuestionTextChange jsstring
  | OptionTextChange jsstring jsstring
  | OptionCorrectChange jsstring
  | DeleteOption jsstring
  | SaveChanges

definition editorStep :: "bool \<Rightarrow> action \<Rightarrow> editor \<Rightarrow> editor" where
  "editorStep validated a e =
     (case a of
        QuestionTextChange newText \<Rightarrow> handleQuestionTextChange newText e
      | OptionTextChange oid newText \<Rightarrow> handleOptionTextChange oid newText e
      | OptionCorrectChange oid \<Rightarrow> handleOptionCorrectChange oid e
      | DeleteOption oid \<Rightarrow> deleteOption oid e
      | SaveChanges \<Rightarrow>
          (case handleSaveChanges e of
             (e', None) \<Rightarrow> e'
           | (e', Some updatedQuestion) \<Rightarrow>
               if validated then e'
               else resetFromQuestion
                      (if questionId (question e') = questionId updatedQuestion
                       then updatedQuestion else question e')))"

text \<open>A sequence of steps, each with the value of \<open>isQuizValidated\<close> at its time.\<close>

fun editorRun :: "(bool \<times> action) list \<Rightarrow> editor \<Rightarrow> editor" where
  "editorRun [] e = e"
| "editorRun ((validated, a) # rest) e = editorRun rest (editorStep validated a e)"

section \<open>The quiz state store (App)\<close>

text \<open>
  \<open>QuizSettings\<close> without the optional list of processed files, which no handler below
  reads. \<open>numQuestions\<close> comes from \<open>parseInt\<close> and is only added to.
\<close>

record QuizSettings =
  quizName :: jsstring
  gradeLevel :: jsstring
  subject :: jsstring
  userPrompt :: jsstring
  numQuestions :: int
  multipleChoicePercentage :: int

text \<open>
  The messages that the handlers below store in the \<open>error\<close> state. \<open>Thrown m\<close> is
  the message \<open>m\<close> of a caught exception; the other constructors are the handlers' own
  French texts.
\<close>

datatype message =
    OriginalQuestionNotFound
  | NoAlternativeGenerated
  | RegenerationFailed
  | NoAdditionalQuestions
  | AdditionFailed
  | Thrown jsstring

datatype alert = EmptyQuizAlert | NoCorrectAnswerAlert

text \<open>
  The state of the \<open>App\<close> component that the handlers read and write
  (\<open>groundingChunks\<close> is left out: they do not touch it).
\<close>

record 't app =
  quizSettings :: "QuizSettings option"
  editableQuiz :: "'t QuizQuestion list"
  isLoading :: bool
  isAddingMoreQuestions :: bool
  error :: "message option"
  isQuizValidated :: bool
  regeneratingQuestionId :: "jsstring option"

text \<open>
  How an awaited call to the AI service ends: it resolves with a value, or rejects
  with an exception whose \<open>message\<close> (empty when it has none) is kept.
\<close>

datatype 'a settled = Resolved 'a | Failed jsstring

definition messageOr :: "jsstring \<Rightarrow> message \<Rightarrow> message" where
  "messageOr m fallback = (if m = [] then fallback else Thrown m)"

definition handleUpdateQuestion :: "'t QuizQuestion \<Rightarrow> 't app \<Rightarrow> 't app" where
  "handleUpdateQuestion updatedQuestion st =
     (if isQuizValidated st then st
      else st\<lparr>editableQuiz :=
               map (\<lambda>q. if questionId q = questionId updatedQuestion then updatedQuestion else q)
                 (editableQuiz st)\<rparr>)"

definition handleDeleteQuestion :: "jsstring \<Rightarrow> 't app \<Rightarrow> 't app" where
  "handleDeleteQuestion qid st =
     (if isQuizValidated st then st
      else st\<lparr>editableQuiz := filter (\<lambda>q. questionId q \<noteq> qid) (editableQuiz st)\<rparr>)"

text \<open>\<open>xs.splice(start, 0, x)\<close> on a copy of \<open>xs\<close>.\<close>

definition splice :: "nat \<Rightarrow> 'a \<Rightarrow> 'a list \<Rightarrow> 'a list" where
  "splice start x xs = take start xs @ x # drop start xs"

text \<open>
  The state updater that \<open>handleRegenerateAlternativeQuestion\<close> passes to
  \<open>setEditableQuiz\<close> when the service returned a question. It runs on the quiz list
  of the moment the result arrives.
\<close>

definition insertAlternative ::
  "jsstring \<Rightarrow> 't QuizQuestion \<Rightarrow> 't QuizQuestion list \<Rightarrow> 't QuizQuestion list" where
  "insertAlternative originalQuestionId newQuestion prevQuiz =
     (case findIndex (\<lambda>q. questionId q = originalQuestionId) prevQuiz of
        None \<Rightarrow> prevQuiz
      | Some originalIndex \<Rightarrow> splice (originalIndex + 1) newQuestion prevQuiz)"

text \<open>
  \<open>handleRegenerateAlternativeQuestion\<close> up to its \<open>await\<close>: the new state and the
  request sent to \<open>generateAlternativeQuestion\<close>, if any. The first two branches are
  the guard \<open>isQuizValidated || !quizSettings\<close>.
\<close>

definition handleRegenerateAlternativeQuestion ::
  "jsstring \<Rightarrow> 't app \<Rightarrow> 't app \<times> ('t QuizQuestion \<times> QuizSettings) option" where
  "handleRegenerateAlternativeQuestion originalQuestionId st =
     (case quizSettings st of
        None \<Rightarrow> (st, None)
      | Some settings \<Rightarrow>
          if isQuizValidated st then (st, None)
          else
            (case find (\<lambda>q. questionId q = originalQuestionId) (editableQuiz st) of
               None \<Rightarrow> (st\<lparr>error := Some OriginalQuestionNotFound\<rparr>, None)
             | Some originalQuestion \<Rightarrow>
                 (st\<lparr>regeneratingQuestionId := Some originalQuestionId, error := None\<rparr>,
                  Some (originalQuestion, settings))))"

text \<open>The rest of it, run on the state of the moment the call settles.\<close>

definition regenerateSettled ::
  "jsstring \<Rightarrow> 't QuizQuestion option settled \<Rightarrow> 't app \<Rightarrow> 't app" where
  "regenerateSettled originalQuestionId outcome st =
     (case outcome of
        Resolved (Some newQuestion) \<Rightarrow>
          st\<lparr>editableQuiz := insertAlternative originalQuestionId newQuestion (editableQuiz st)\<rparr>
      | Resolved None \<Rightarrow> st\<lparr>error := Some NoAlternativeGenerated\<rparr>
      | Failed m \<Rightarrow> st\<lparr>error := Some (messageOr m RegenerationFailed)\<rparr>)
     \<lparr>regeneratingQuestionId := None\<rparr>"

text \<open>
  \<open>handleAddMoreQuestions\<close> up to its \<open>await\<close>: the new state and the request sent
  to \<open>generateMoreQuestions\<close> (settings, existing questions, ten new questions), if any.
  The alert that the guard shows for an empty quiz does not change the state.
\<close>

definition handleAddMoreQuestions ::
  "'t app \<Rightarrow> 't app \<times> (QuizSettings \<times> 't QuizQuestion list \<times> nat) option" where
  "handleAddMoreQuestions st =
     (case quizSettings st of
        None \<Rightarrow> (st, None)
      | Some settings \<Rightarrow>
          if isQuizValidated st \<or> editableQuiz st = [] \<or> isLoading st \<or> isAddingMoreQuestions st
          then (st, None)
          else (st\<lparr>isAddingMoreQuestions := True, error := None\<rparr>,
                Some (settings, editableQuiz st, 10)))"

definition addMoreSettled :: "'t QuizQuestion list option settled \<Rightarrow> 't app \<Rightarrow> 't app" where
  "addMoreSettled outcome st =
     (case outcome of
        Resolved (Some newQuestions) \<Rightarrow>
          if newQuestions \<noteq> [] then
            st\<lparr>editableQuiz := editableQuiz st @ newQuestions,
               quizSettings :=
                 map_option
                   (\<lambda>prevSettings. prevSettings\<lparr>numQuestions :=
                      numQuestions prevSettings + int (length newQuestions)\<rparr>)
                   (quizSettings st)\<rparr>
          else st\<lparr>error := Some NoAdditionalQuestions\<rparr>
      | Resolved None \<Rightarrow> st\<lparr>error := Some NoAdditionalQuestions\<rparr>
      | Failed m \<Rightarrow> st\<lparr>error := Some (messageOr m AdditionFailed)\<rparr>)
     \<lparr>isAddingMoreQuestions := False\<rparr>"

text \<open>
  \<open>handleValidateQuiz\<close>: the new state and the alert shown, if any. Validation
  succeeded when no alert is shown.
\<close>

definition handleValidateQuiz :: "'t app \<Rightarrow> 't app \<times> alert option" where
  "handleValidateQuiz st =
     (if length (editableQuiz st) = 0 then (st, Some EmptyQuizAlert)
      else
        let isValid = list_all (\<lambda>q. list_ex isCorrect (options q)) (editableQuiz st) in
        if \<not> isValid then (st, Some NoCorrectAnswerAlert)
        else (st\<lparr>isQuizValidated := True\<rparr>, None))"

section \<open>The response parser (geminiService)\<close>

subsection \<open>Fence stripping and the LaTeX heuristic\<close>

text \<open>
  The group \<open>(?:json)\<close> under the \<open>i\<close> flag: without the \<open>u\<close> flag a
  character beyond ASCII never matches an ASCII letter, so each letter matches
  exactly its two cases.
\<close>

definition matchesJson :: "jsstring \<Rightarrow> bool" where
  "matchesJson s =
     (case s of
        c1 # c2 # c3 # c4 # _ \<Rightarrow>
          (c1 = 106 \<or> c1 = 74) \<and> (c2 = 115 \<or> c2 = 83) \<and>
          (c3 = 111 \<or> c3 = 79) \<and> (c4 = 110 \<or> c4 = 78)
      | _ \<Rightarrow> False)"

text \<open>
  \<open>fenceRegex\<close>, matched against the whole string: three backquotes, \<open>json\<close> if it
  is there, all the white space that follows (\<open>\s*\<close> is greedy and leaves nothing
  for \<open>\n?\<close>), the lazy group, and at the end white space and three backquotes.
  The group is the shortest text that only white space separates from the closing
  backquotes. The result is the group \<open>match[1]\<close>, \<open>None\<close> when the expression
  does not match.
\<close>

definition fenceMatch :: "jsstring \<Rightarrow> jsstring option" where
  "fenceMatch s =
     (if take 3 s = js ''```'' then
        let afterOpen = drop 3 s;
            afterJson = (if matchesJson afterOpen then drop 4 afterOpen else afterOpen);
            body = dropWhile isWhiteSpace afterJson
        in if 3 \<le> length body \<and> drop (length body - 3) body = js ''```''
           then Some (trimEnd (take (length body - 3) body))
           else None
      else None)"

definition cleanJsonString :: "jsstring \<Rightarrow> jsstring" where
  "cleanJsonString jsonString =
     (let trimmed = trim jsonString in
      case fenceMatch trimmed of
        None \<Rightarrow> trimmed
      | Some captured \<Rightarrow> if captured \<noteq> [] then trim captured else trimmed)"

definition isAsciiLetter :: "nat \<Rightarrow> bool" where
  "isAsciiLetter c \<longleftrightarrow> (97 \<le> c \<and> c \<le> 122) \<or> (65 \<le> c \<and> c \<le> 90)"

text \<open>
  \<open>s.replace(/\\([a-zA-Z]{2,})/g, '\\\\$1')\<close>: the scan goes from left to right; where
  a backslash (92) is followed by at least two letters, the match takes all the letters
  that follow, two backslashes and these letters are written, and the scan goes on
  after them; any other character is copied.
\<close>

function replaceLatex :: "jsstring \<Rightarrow> jsstring" where
  "replaceLatex [] = []"
| "replaceLatex (c # s) =
     (if c = 92 \<and> 2 \<le> length (takeWhile isAsciiLetter s)
      then 92 # 92 # takeWhile isAsciiLetter s @ replaceLatex (dropWhile isAsciiLetter s)
      else c # replaceLatex s)"
  by pat_completeness auto
termination
  by (relation "measure length") (auto simp: le_imp_less_Suc length_dropWhile_le)

text \<open>
  The claim's wording of the heuristic, to compare \<open>replaceLatex\<close> with: every
  character is copied in its place, and a backslash that two letters follow is written
  twice.
\<close>

definition followedByTwoLetters :: "jsstring \<Rightarrow> bool" where
  "followedByTwoLetters s =
     (case s of a # b # _ \<Rightarrow> isAsciiLetter a \<and> isAsciiLetter b | _ \<Rightarrow> False)"

fun doubledBackslashes :: "jsstring \<Rightarrow> jsstring" where
  "doubledBackslashes [] = []"
| "doubledBackslashes (c # s) =
     (if c = 92 \<and> followedByTwoLetters s then [92, 92] else [c]) @ doubledBackslashes s"

subsection \<open>JSON values and \<open>JSON.parse\<close>\<close>

text \<open>
  The values that \<open>JSON.parse\<close> builds. A number is kept as the decimal it was
  written as, \<open>JNumber m e\<close> for \<open>m\<close> times ten to the power \<open>e\<close>; an object keeps its
  members in the order of the text.
\<close>

datatype json =
    JNull
  | JBool bool
  | JNumber int int
  | JString jsstring
  | JArray "json list"
  | JObject "(jsstring \<times> json) list"

datatype token =
    TLBracket | TRBracket | TLBrace | TRBrace | TComma | TColon
  | TString jsstring | TNumber int int | TTrue | TFalse | TNull

definition isDigit :: "nat \<Rightarrow> bool" where
  "isDigit c \<longleftrightarrow> 48 \<le> c \<and> c \<le> 57"

definition isJsonWhiteSpace :: "nat \<Rightarrow> bool" where
  "isJsonWhiteSpace c \<longleftrightarrow> c = 9 \<or> c = 10 \<or> c = 13 \<or> c = 32"

definition hexValue :: "nat \<Rightarrow> nat option" where
  "hexValue c =
     (if 48 \<le> c \<and> c \<le> 57 then Some (c - 48)
      else if 97 \<le> c \<and> c \<le> 102 then Some (c - 87)
      else if 65 \<le> c \<and> c \<le> 70 then Some (c - 55)
      else None)"

text \<open>The character after a backslash in a JSON string, other than \<open>u\<close>.\<close>

definition unescape :: "nat \<Rightarrow> nat option" where
  "unescape c =
     (if c = 34 \<or> c = 92 \<or> c = 47 then Some c
      else if c = 98 then Some 8
      else if c = 102 then Some 12
      else if c = 110 then Some 10
      else if c = 114 then Some 13
      else if c = 116 then Some 9
      else None)"

definition consChar :: "nat \<Rightarrow> (jsstring \<times> jsstring) option \<Rightarrow> (jsstring \<times> jsstring) option" where
  "consChar c r = map_option (\<lambda>(str, rest). (c # str, rest)) r"

text \<open>
  A JSON string from after its opening quote: the string's value and the text after
  the closing quote. Control characters below 32 may not stand in it unescaped.
\<close>

fun lexString :: "jsstring \<Rightarrow> (jsstring \<times> jsstring) option" where
  "lexString [] = None"
| "lexString (c # s) =
     (if c = 34 then Some ([], s)
      else if c = 92 then
        (case s of
           [] \<Rightarrow> None
         | e # s' \<Rightarrow>
             if e = 117 then
               (case s' of
                  h1 # h2 # h3 # h4 # s'' \<Rightarrow>
                    (case (hexValue h1, hexValue h2, hexValue h3, hexValue h4) of
                       (Some a, Some b, Some c, Some d) \<Rightarrow>
                         consChar (4096 * a + 256 * b + 16 * c + d) (lexString s'')
                     | _ \<Rightarrow> None)
                | _ \<Rightarrow> None)
             else (case unescape e of None \<Rightarrow> None | Some u \<Rightarrow> consChar u (lexString s')))
      else if c < 32 then None
      else consChar c (lexString s))"

definition digitsValue :: "jsstring \<Rightarrow> int" where
  "digitsValue ds = foldl (\<lambda>n d. 10 * n + int (d - 48)) 0 ds"

text \<open>
  A JSON number: an optional minus sign, the integer digits (no leading zero before
  another digit), an optional fraction and an optional exponent. \<open>lexNumber\<close> returns
  the mantissa, the decimal exponent and the text after the number.
\<close>

definition lexInteger :: "jsstring \<Rightarrow> (jsstring \<times> jsstring) option" where
  "lexInteger s =
     (let intDigits = takeWhile isDigit s in
      if intDigits = [] \<or> (take 1 intDigits = [48] \<and> 1 < length intDigits) then None
      else Some (intDigits, dropWhile isDigit s))"

definition lexFraction :: "jsstring \<Rightarrow> (jsstring \<times> jsstring) option" where
  "lexFraction s =
     (if take 1 s = [46] then
        (let fracDigits = takeWhile isDigit (drop 1 s) in
         if fracDigits = [] then None else Some (fracDigits, dropWhile isDigit (drop 1 s)))
      else Some ([], s))"

definition lexExponent :: "jsstring \<Rightarrow> (int \<times> jsstring) option" where
  "lexExponent s =
     (if take 1 s = [101] \<or> take 1 s = [69] then
        (let negative = (take 1 (drop 1 s) = [45]);
             s' = (if negative \<or> take 1 (drop 1 s) = [43] then drop 2 s else drop 1 s);
             expDigits = takeWhile isDigit s'
         in if expDigits = [] then None
            else Some (if negative then - digitsValue expDigits else digitsValue expDigits,
                       dropWhile isDigit s'))
      else Some (0, s))"

definition lexNumber :: "jsstring \<Rightarrow> (int \<times> int \<times> jsstring) option" where
  "lexNumber s =
     (let negative = (take 1 s = [45]) in
      case lexInteger (if negative then drop 1 s else s) of
        None \<Rightarrow> None
      | Some (intDigits, s1) \<Rightarrow>
          (case lexFraction s1 of
             None \<Rightarrow> None
           | Some (fracDigits, s2) \<Rightarrow>
               (case lexExponent s2 of
                  None \<Rightarrow> None
                | Some (exponent, s3) \<Rightarrow>
                    Some ((if negative then - 1 else 1) * digitsValue (intDigits @ fracDigits),
                          exponent - int (length fracDigits), s3))))"

definition consToken :: "token \<Rightarrow> token list option \<Rightarrow> token list option" where
  "consToken t r = map_option ((#) t) r"

function tokenize :: "jsstring \<Rightarrow> token list option" where
  "tokenize [] = Some []"
| "tokenize (c # s) =
     (if isJsonWhiteSpace c then tokenize s
      else if c = 91 then consToken TLBracket (tokenize s)
      else if c = 93 then consToken TRBracket (tokenize s)
      else if c = 123 then consToken TLBrace (tokenize s)
      else if c = 125 then consToken TRBrace (tokenize s)
      else if c = 44 then consToken TComma (tokenize s)
      else if c = 58 then consToken TColon (tokenize s)
      else if c = 34 then
        (case lexString s of
           None \<Rightarrow> None
         | Some (str, rest) \<Rightarrow> consToken (TString str) (tokenize rest))
      else if c = 45 \<or> isDigit c then
        (case lexNumber (c # s) of
           None \<Rightarrow> None
         | Some (m, e, rest) \<Rightarrow> consToken (TNumber m e) (tokenize rest))
      else if take 4 (c # s) = js ''true'' then consToken TTrue (tokenize (drop 3 s))
      else if take 5 (c # s) = js ''false'' then consToken TFalse (tokenize (drop 4 s))
      else if take 4 (c # s) = js ''null'' then consToken TNull (tokenize (drop 3 s))
      else None)"
  by pat_completeness auto

lemma lexString_shorter: "lexString s = Some (str, rest) \<Longrightarrow> length rest < length s"
proof (induction s arbitrary: str rest rule: lexString.induct)
  case 1
  then show ?case by simp
next
  case (2 c s)
  then show ?case
    by (auto simp: consChar_def split: if_splits list.splits option.splits) fastforce+
qed

lemma dropWhile_shorter: "takeWhile P xs \<noteq> [] \<Longrightarrow> length (dropWhile P xs) < length xs"
  by (cases xs) (auto simp: le_imp_less_Suc length_dropWhile_le split: if_splits)

lemma lexInteger_shorter: "lexInteger s = Some (ds, rest) \<Longrightarrow> length rest < length s"
  by (auto simp: lexInteger_def Let_def dropWhile_shorter split: if_splits)

lemma dropWhile_drop_le: "length (dropWhile P (drop n xs)) \<le> length xs"
  by (rule le_trans [OF length_dropWhile_le]) simp

lemma lexFraction_shorter: "lexFraction s = Some (ds, rest) \<Longrightarrow> length rest \<le> length s"
  by (auto simp: lexFraction_def Let_def dropWhile_drop_le split: if_splits)

lemma lexExponent_shorter: "lexExponent s = Some (e, rest) \<Longrightarrow> length rest \<le> length s"
  by (auto simp: lexExponent_def Let_def dropWhile_drop_le split: if_splits)

lemma lexNumber_shorter:
  assumes "lexNumber s = Some (m, e, rest)"
  shows "length rest < length s"
proof -
  from assms obtain intDigits s1 fracDigits s2 exponent where
    int: "lexInteger (if take 1 s = [45] then drop 1 s else s) = Some (intDigits, s1)" and
    frac: "lexFraction s1 = Some (fracDigits, s2)" and
    exp: "lexExponent s2 = Some (exponent, rest)"
    by (auto simp: lexNumber_def Let_def split: option.splits)
  have "length s1 < length (if take 1 s = [45] then drop 1 s else s)"
    using int by (rule lexInteger_shorter)
  then have "length s1 < length s"
    by (simp split: if_splits)
  with lexFraction_shorter [OF frac] lexExponent_shorter [OF exp] show ?thesis
    by simp
qed

termination tokenize
  by (relation "measure length")
     (auto dest: lexString_shorter lexNumber_shorter simp: less_Suc_eq_le)

text \<open>
  The grammar of JSON values over the tokens. Each function returns what it read and
  the tokens after it. \<open>parseElements\<close> reads the elements of a non-empty array up to
  its closing bracket, \<open>parseMembers\<close> the members of a non-empty object up to its
  closing brace. Both go on after a comma only with fewer tokens than they started
  from; the lemmas after the definition show that this is always the case.
\<close>

function parseValue :: "token list \<Rightarrow> (json \<times> token list) option"
  and parseElements :: "token list \<Rightarrow> (json list \<times> token list) option"
  and parseMembers :: "token list \<Rightarrow> ((jsstring \<times> json) list \<times> token list) option" where
  "parseValue [] = None"
| "parseValue (t # ts) =
     (case t of
        TNull \<Rightarrow> Some (JNull, ts)
      | TTrue \<Rightarrow> Some (JBool True, ts)
      | TFalse \<Rightarrow> Some (JBool False, ts)
      | TNumber m e \<Rightarrow> Some (JNumber m e, ts)
      | TString s \<Rightarrow> Some (JString s, ts)
      | TLBracket \<Rightarrow>
          if take 1 ts = [TRBracket] then Some (JArray [], drop 1 ts)
          else (case parseElements ts of None \<Rightarrow> None | Some (vs, r) \<Rightarrow> Some (JArray vs, r))
      | TLBrace \<Rightarrow>
          if take 1 ts = [TRBrace] then Some (JObject [], drop 1 ts)
          else (case parseMembers ts of None \<Rightarrow> None | Some (ms, r) \<Rightarrow> Some (JObject ms, r))
      | _ \<Rightarrow> None)"
| "parseElements ts =
     (case parseValue ts of
        None \<Rightarrow> None
      | Some (v, r) \<Rightarrow>
          (case r of
             TComma # r' \<Rightarrow>
               if length r' < length ts then
                 (case parseElements r' of None \<Rightarrow> None | Some (vs, r'') \<Rightarrow> Some (v # vs, r''))
               else None
           | TRBracket # r' \<Rightarrow> Some ([v], r')
           | _ \<Rightarrow> None))"
| "parseMembers ts =
     (case ts of
        TString k # TColon # ts' \<Rightarrow>
          (case parseValue ts' of
             None \<Rightarrow> None
           | Some (v, r) \<Rightarrow>
               (case r of
                  TComma # r' \<Rightarrow>
                    if length r' < length ts' then
                      (case parseMembers r' of
                         None \<Rightarrow> None
                       | Some (ms, r'') \<Rightarrow> Some ((k, v) # ms, r''))
                    else None
                | TRBrace # r' \<Rightarrow> Some ([(k, v)], r')
                | _ \<Rightarrow> None))
      | _ \<Rightarrow> None)"
  by pat_completeness auto
termination
  by (relation "measure (\<lambda>x. case x of Inl ts \<Rightarrow> 2 * length ts
        | Inr (Inl ts) \<Rightarrow> 2 * length ts + 1 | Inr (Inr ts) \<Rightarrow> 2 * length ts + 1)") auto

text \<open>
  What each of the three functions returns is shorter than what it was given, so the
  two comparisons of lengths above always hold.
\<close>

lemma parseValue_shorter: "parseValue ts = Some (v, r) \<Longrightarrow> length r < length ts"
  and parseElements_shorter: "parseElements ts1 = Some (vs, r1) \<Longrightarrow> length r1 < length ts1"
  and parseMembers_shorter: "parseMembers ts2 = Some (ms, r2) \<Longrightarrow> length r2 < length ts2"
proof (induction ts and ts1 and ts2 arbitrary: v r and vs r1 and ms r2
    rule: parseValue_parseElements_parseMembers.induct)
  case 1
  then show ?case by simp
next
  case (2 t ts)
  then show ?case
    by (cases t) (fastforce split: if_splits option.splits)+
next
  case (3 ts)
  from "3.prems" obtain v r where parsed: "parseValue ts = Some (v, r)"
    by (auto split: option.splits)
  note shorter = "3.IH"(1) [OF parsed]
  show ?case
  proof (cases r)
    case Nil
    with "3.prems" parsed show ?thesis by simp
  next
    case (Cons t r')
    show ?thesis
    proof (cases "t = TComma")
      case True
      with "3.prems" parsed Cons obtain vs' where
        "length r' < length ts" and rest: "parseElements r' = Some (vs', r1)"
        by (auto split: if_splits option.splits)
      from "3.IH"(2) [OF parsed refl Cons True this] this(1) show ?thesis
        by simp
    next
      case False
      with "3.prems" parsed Cons shorter show ?thesis
        by (cases t) auto
    qed
  qed
next
  case (4 ts)
  from "4.prems" obtain k ts' where ts: "ts = TString k # TColon # ts'"
    by (auto split: list.splits token.splits)
  with "4.prems" obtain v r where parsed: "parseValue ts' = Some (v, r)"
    by (auto split: option.splits)
  note shorter = "4.IH"(1) [OF ts refl refl refl parsed]
  show ?case
  proof (cases r)
    case Nil
    with "4.prems" ts parsed show ?thesis by simp
  next
    case (Cons t r')
    show ?thesis
    proof (cases "t = TComma")
      case True
      with "4.prems" ts parsed Cons obtain ms' where
        "length r' < length ts'" and rest: "parseMembers r' = Some (ms', r2)"
        by (auto split: if_splits option.splits)
      from "4.IH"(2) [OF ts refl refl refl parsed refl Cons True this] this(1) ts show ?thesis
        by simp
    next
      case False
      with "4.prems" ts parsed Cons shorter show ?thesis
        by (cases t) auto
    qed
  qed
qed

text \<open>
  \<open>JSON.parse\<close> without a reviver: the text is one JSON value between optional white
  space. \<open>None\<close> stands for the \<open>SyntaxError\<close> it throws.
\<close>

definition JSON_parse :: "jsstring \<Rightarrow> json option" where
  "JSON_parse src =
     (case tokenize src of
        None \<Rightarrow> None
      | Some ts \<Rightarrow> (case parseValue ts of Some (v, []) \<Rightarrow> Some v | _ \<Rightarrow> None))"

subsection \<open>From JSON values to questions\<close>

text \<open>
  Whether the double that JavaScript rounds the decimal to is zero: the decimal is
  zero, or at most two to the power -1075, half of the least positive double.
\<close>

definition roundsToZero :: "int \<Rightarrow> int \<Rightarrow> bool" where
  "roundsToZero m e \<longleftrightarrow> m = 0 \<or> (e < 0 \<and> \<bar>m\<bar> * 2 ^ 1075 \<le> 10 ^ nat (- e))"

text \<open>\<open>ToBoolean\<close> on a value.\<close>

fun truthy :: "json \<Rightarrow> bool" where
  "truthy JNull = False"
| "truthy (JBool b) = b"
| "truthy (JNumber m e) = (\<not> roundsToZero m e)"
| "truthy (JString s) = (s \<noteq> [])"
| "truthy (JArray vs) = True"
| "truthy (JObject ms) = True"

text \<open>
  Reading one of the properties \<open>questionText\<close>, \<open>options\<close>, \<open>isMultipleChoice\<close>,
  \<open>text\<close> or \<open>isCorrect\<close> of a value other than \<open>null\<close>; \<open>None\<close> is
  \<open>undefined\<close>. Only an object can have such a property, and the last member of that
  name in the text is the one it has. On \<open>null\<close> the access throws a
  \<open>TypeError\<close>, which the callers below check first.
\<close>

fun property :: "json \<Rightarrow> jsstring \<Rightarrow> json option" where
  "property (JObject members) name = map_of (rev members) name"
| "property v name = None"

text \<open>\<open>!!v.name\<close> and \<open>v.name || fallback\<close>.\<close>

definition toBoolean :: "json option \<Rightarrow> bool" where
  "toBoolean v = (case v of None \<Rightarrow> False | Some x \<Rightarrow> truthy x)"

definition orElse :: "json option \<Rightarrow> json \<Rightarrow> json" where
  "orElse v fallback = (case v of None \<Rightarrow> fallback | Some x \<Rightarrow> if truthy x then x else fallback)"

text \<open>The decimal digits of a natural number, as a template literal prints it.\<close>

fun decimal :: "nat \<Rightarrow> jsstring" where
  "decimal n = (if n < 10 then [48 + n] else decimal (n div 10) @ [48 + n mod 10])"

declare decimal.simps [simp del]

text \<open>
  The identifiers come from \<open>crypto.randomUUID()\<close>, in a browser that has it. Its
  results are a parameter: \<open>uuid k\<close> is what call number \<open>k\<close> of one run of the
  parser returns, and the functions below count the calls. \<open>None\<close> is a thrown
  \<open>TypeError\<close>.
\<close>

definition toQuizOption :: "jsstring \<Rightarrow> json \<Rightarrow> json QuizOption option" where
  "toQuizOption newId opt =
     (if opt = JNull then None
      else Some \<lparr>optionId = newId,
                 optionText = orElse (property opt (js ''text'')) (JString (js ''Option vide'')),
                 isCorrect = toBoolean (property opt (js ''isCorrect''))\<rparr>)"

fun mapOptions ::
  "(nat \<Rightarrow> jsstring) \<Rightarrow> nat \<Rightarrow> json list \<Rightarrow> (json QuizOption list \<times> nat) option" where
  "mapOptions uuid k [] = Some ([], k)"
| "mapOptions uuid k (opt # rest) =
     (case toQuizOption (uuid k) opt of
        None \<Rightarrow> None
      | Some quizOption \<Rightarrow>
          (case mapOptions uuid (Suc k) rest of
             None \<Rightarrow> None
           | Some (quizOptions, k') \<Rightarrow> Some (quizOption # quizOptions, k')))"

text \<open>
  The callback of the outer \<open>map\<close> on the element \<open>q\<close> at position \<open>index\<close>:
  the question and the number of calls of \<open>randomUUID\<close> so far.
\<close>

definition toQuizQuestion ::
  "(nat \<Rightarrow> jsstring) \<Rightarrow> nat \<Rightarrow> nat \<Rightarrow> json \<Rightarrow> (json QuizQuestion \<times> nat) option" where
  "toQuizQuestion uuid k index q =
     (if q = JNull then None
      else
        (case (case property q (js ''options'') of
                 Some (JArray opts) \<Rightarrow> mapOptions uuid (Suc k) opts
               | _ \<Rightarrow> Some ([], Suc k)) of
           None \<Rightarrow> None
         | Some (quizOptions, k') \<Rightarrow>
             Some (\<lparr>questionId = uuid k,
                    questionText =
                      orElse (property q (js ''questionText''))
                        (JString (js ''Question '' @ decimal (index + 1) @ js '' sans texte'')),
                    options = quizOptions,
                    isMultipleChoice = toBoolean (property q (js ''isMultipleChoice''))\<rparr>,
                   k')))"

fun mapQuestions ::
  "(nat \<Rightarrow> jsstring) \<Rightarrow> nat \<Rightarrow> nat \<Rightarrow> json list \<Rightarrow> json QuizQuestion list option" where
  "mapQuestions uuid k index [] = Some []"
| "mapQuestions uuid k index (q # rest) =
     (case toQuizQuestion uuid k index q of
        None \<Rightarrow> None
      | Some (quizQuestion, k') \<Rightarrow>
          (case mapQuestions uuid k' (Suc index) rest of
             None \<Rightarrow> None
           | Some quizQuestions \<Rightarrow> Some (quizQuestion # quizQuestions)))"

text \<open>
  \<open>parseGeneratedQuiz\<close>; \<open>None\<close> is \<open>null\<close>. The \<open>catch\<close> clause turns the
  \<open>SyntaxError\<close> of \<open>JSON.parse\<close> and a \<open>TypeError\<close> of the callbacks alike into
  \<open>null\<close>.
\<close>

definition parseGeneratedQuiz :: "(nat \<Rightarrow> jsstring) \<Rightarrow> jsstring \<Rightarrow> json QuizQuestion list option" where
  "parseGeneratedQuiz uuid jsonString =
     (let processedJsonString = replaceLatex (cleanJsonString jsonString) in
      case JSON_parse processedJsonString of
        None \<Rightarrow> None
      | Some (JArray parsed) \<Rightarrow> mapQuestions uuid 0 0 parsed
      | Some _ \<Rightarrow> None)"

text \<open>
  What \<open>generateAlternativeQuestion\<close> returns for the response text of the service:
  the first parsed question. (\<open>generateQuiz\<close> and \<open>generateMoreQuestions\<close> return the
  result of \<open>parseGeneratedQuiz\<close> as it is.)
\<close>

definition alternativeOfResponse :: "(nat \<Rightarrow> jsstring) \<Rightarrow> jsstring \<Rightarrow> json QuizQuestion option" where
  "alternativeOfResponse uuid responseText =
     (case parseGeneratedQuiz uuid responseText of
        Some (parsedQuestion # _) \<Rightarrow> Some parsedQuestion
      | _ \<Rightarrow> None)"

text \<open>A code fence around a text, as the claim on fences describes it.\<close>

definition fenced :: "jsstring \<Rightarrow> jsstring \<Rightarrow> jsstring" where
  "fenced tag s = js ''```'' @ tag @ [10] @ s @ [10] @ js ''```''"

text \<open>A run of \<open>randomUUID\<close> results to evaluate examples with.\<close>

definition exampleUuid :: "nat \<Rightarrow> jsstring" where
  "exampleUuid k = js ''uuid-'' @ decimal k"

text \<open>
  The elements of \<open>q.options\<close> when it is an array, and none otherwise: what the
  inner \<open>map\<close> runs over.
\<close>

definition optionsOf :: "json \<Rightarrow> json list" where
  "optionsOf q = (case property q (js ''options'') of Some (JArray opts) \<Rightarrow> opts | _ \<Rightarrow> [])"

text \<open>
  The elements on which the outer callback throws a \<open>TypeError\<close>: \<open>null\<close>, and
  an element whose \<open>options\<close> array holds a \<open>null\<close>.
\<close>

definition throwsTypeError :: "json \<Rightarrow> bool" where
  "throwsTypeError q \<longleftrightarrow> q = JNull \<or> JNull \<in> set (optionsOf q)"

text \<open>
  The question made from the element \<open>q\<close> at position \<open>index\<close>, up to its
  identifiers: defaults in the place of missing or falsy texts, flags by
  \<open>ToBoolean\<close>, one option for each element of \<open>q.options\<close>.
\<close>

definition questionFrom :: "nat \<Rightarrow> json \<Rightarrow> json QuizQuestion \<Rightarrow> bool" where
  "questionFrom index q quizQuestion \<longleftrightarrow>
     questionText quizQuestion =
       orElse (property q (js ''questionText''))
         (JString (js ''Question '' @ decimal (index + 1) @ js '' sans texte'')) \<and>
     isMultipleChoice quizQuestion = toBoolean (property q (js ''isMultipleChoice'')) \<and>
     length (options quizQuestion) = length (optionsOf q) \<and>
     (\<forall>j<length (optionsOf q).
        optionText (options quizQuestion ! j) =
          orElse (property (optionsOf q ! j) (js ''text'')) (JString (js ''Option vide'')) \<and>
        isCorrect (options quizQuestion ! j) =
          toBoolean (property (optionsOf q ! j) (js ''isCorrect'')))"

section \<open>Example inputs and invariants\<close>

text \<open>Small questions and states on which the theorems below are evaluated.\<close>

definition exampleOption :: "string \<Rightarrow> bool \<Rightarrow> jsstring QuizOption" where
  "exampleOption name correct = \<lparr>optionId = js name, optionText = js name, isCorrect = correct\<rparr>"

definition exampleQuestion :: "string \<Rightarrow> bool \<Rightarrow> jsstring QuizOption list \<Rightarrow> jsstring QuizQuestion" where
  "exampleQuestion name multiple opts =
     \<lparr>questionId = js name, questionText = js ''2 + 2 ?'', options = opts,
      isMultipleChoice = multiple\<rparr>"

definition exampleSettings :: QuizSettings where
  "exampleSettings =
     \<lparr>quizName = js ''Quiz'', gradeLevel = js ''6'', subject = js ''Maths'', userPrompt = js ''sums'',
      numQuestions = 3, multipleChoicePercentage = 50\<rparr>"

definition exampleApp :: "jsstring QuizQuestion list \<Rightarrow> bool \<Rightarrow> jsstring app" where
  "exampleApp quiz validated =
     \<lparr>quizSettings = Some exampleSettings, editableQuiz = quiz, isLoading = False,
      isAddingMoreQuestions = False, error = None, isQuizValidated = validated,
      regeneratingQuestionId = None\<rparr>"

text \<open>Response texts of the service.\<close>

definition fourOptionResponse :: jsstring where
  \<open>fourOptionResponse =
     js ''[{"questionText":"1+1 ?","options":[{"text":"1"},{"text":"2","isCorrect":true},{"text":"3"},{"text":"4"}]}]''\<close>

definition oneOptionResponse :: jsstring where
  \<open>oneOptionResponse = js ''[{"questionText":"1+1 ?","options":[{"text":"2","isCorrect":true}]}]''\<close>

definition defaultsResponse :: jsstring where
  \<open>defaultsResponse =
     js ''[{"isMultipleChoice":1,"options":[{"isCorrect":"yes"},{"text":"","isCorrect":0.0}]},{"questionText":"Q","options":7}]''\<close>

text \<open>
  The state of a card whose question and edited list both have at least two options,
  with pairwise distinct identifiers.
\<close>

definition wellFormed :: "editor \<Rightarrow> bool" where
  "wellFormed e \<longleftrightarrow>
     2 \<le> length (editedOptions e) \<and> distinct (map optionId (editedOptions e)) \<and>
     2 \<le> length (options (question e)) \<and> distinct (map optionId (options (question e)))"

section \<open>Properties of the question editor\<close>

lemmas example_defs =
  exampleOption_def exampleQuestion_def exampleSettings_def exampleApp_def resetFromQuestion_def
  js_def

lemmas trim_defs = trim_def trimStart_def trimEnd_def isWhiteSpace_def

subsection \<open>Keeping the first correct option\<close>

lemma length_keepFirstCorrect: "length (keepFirstCorrect b xs) = length xs"
  by (induction xs arbitrary: b) auto

lemma optionId_keepFirstCorrect: "map optionId (keepFirstCorrect b xs) = map optionId xs"
  by (induction xs arbitrary: b) auto

lemma keepFirstCorrect_nth:
  "i < length xs \<Longrightarrow>
   keepFirstCorrect b xs ! i =
     (xs ! i)\<lparr>isCorrect := isCorrect (xs ! i) \<and> \<not> b \<and> (\<forall>j<i. \<not> isCorrect (xs ! j))\<rparr>"
proof (induction xs arbitrary: b i)
  case Nil
  then show ?case by simp
next
  case (Cons x xs)
  show ?case
  proof (cases i)
    case 0
    then show ?thesis by simp
  next
    case (Suc n)
    with Cons.prems have n: "n < length xs" by simp
    have split: "(\<forall>j<Suc n. \<not> isCorrect ((x # xs) ! j)) \<longleftrightarrow>
        \<not> isCorrect x \<and> (\<forall>j<n. \<not> isCorrect (xs ! j))"
      by (auto simp: less_Suc_eq_0_disj)
    show ?thesis
      unfolding Suc split using Cons.IH [OF n] by auto
  qed
qed

lemma keepFirstCorrect_True_none: "filter isCorrect (keepFirstCorrect True xs) = []"
  by (induction xs) auto

lemma keepFirstCorrect_False_count:
  "length (filter isCorrect (keepFirstCorrect False xs)) = (if list_ex isCorrect xs then 1 else 0)"
  by (induction xs) (auto simp: keepFirstCorrect_True_none)

lemma keepFirstCorrect_True_id: "filter isCorrect xs = [] \<Longrightarrow> keepFirstCorrect True xs = xs"
  by (induction xs) (auto split: if_splits)

lemma keepFirstCorrect_False_id:
  "length (filter isCorrect xs) \<le> 1 \<Longrightarrow> keepFirstCorrect False xs = xs"
  by (induction xs) (auto simp: keepFirstCorrect_True_id split: if_splits)

lemma handleSaveChanges_committed:
  assumes "handleSaveChanges e = (e', Some q')"
  shows "filter isCorrect (editedOptions e) \<noteq> []"
    and "questionId q' = questionId (question e)"
    and "isMultipleChoice q' = isMultipleChoice (question e)"
    and "options q' = editedOptions e'"
    and "isMultipleChoice (question e) \<Longrightarrow> options q' = editedOptions e"
    and "\<not> isMultipleChoice (question e) \<Longrightarrow> options q' = keepFirstCorrect False (editedOptions e)"
    and "question e' = question e"
  using assms
  by (auto simp: handleSaveChanges_def Let_def keepFirstCorrect_False_id split: if_splits)

text \<open>
  Claim C3. For a single-answer question, a save with no option marked correct is
  rejected and changes nothing, and every save that is committed passes on a question
  with exactly one correct option: the options are those of the edited list, in their
  order, and an option is correct in the committed question exactly when it is the first
  correct one of the edited list.
\<close>

theorem single_answer_save:
  assumes "\<not> isMultipleChoice (question e)"
  shows "(filter isCorrect (editedOptions e) = [] \<longrightarrow> handleSaveChanges e = (e, None)) \<and>
         (\<forall>e' q'. handleSaveChanges e = (e', Some q') \<longrightarrow>
            length (filter isCorrect (options q')) = 1 \<and>
            length (options q') = length (editedOptions e) \<and>
            (\<forall>i<length (editedOptions e).
               options q' ! i =
                 (editedOptions e ! i)\<lparr>isCorrect :=
                    isCorrect (editedOptions e ! i) \<and>
                    (\<forall>j<i. \<not> isCorrect (editedOptions e ! j))\<rparr>))"
proof (intro conjI allI impI)
  assume "filter isCorrect (editedOptions e) = []"
  then show "handleSaveChanges e = (e, None)"
    by (simp add: handleSaveChanges_def Let_def)
next
  fix e' q'
  assume saved: "handleSaveChanges e = (e', Some q')"
  have opts: "options q' = keepFirstCorrect False (editedOptions e)"
    using handleSaveChanges_committed(6) [OF saved assms] .
  have "list_ex isCorrect (editedOptions e)"
    using handleSaveChanges_committed(1) [OF saved]
    by (auto simp: list_ex_iff filter_empty_conv)
  then show "length (filter isCorrect (options q')) = 1"
    by (simp add: opts keepFirstCorrect_False_count)
  show "length (options q') = length (editedOptions e)"
    by (simp add: opts length_keepFirstCorrect)
  fix i
  assume "i < length (editedOptions e)"
  then show "options q' ! i =
      (editedOptions e ! i)\<lparr>isCorrect :=
         isCorrect (editedOptions e ! i) \<and> (\<forall>j<i. \<not> isCorrect (editedOptions e ! j))\<rparr>"
    by (simp add: opts keepFirstCorrect_nth)
qed

theorem single_answer_save_witness:
  "\<not> isMultipleChoice (question (resetFromQuestion (exampleQuestion ''q1'' False
        [exampleOption ''a'' False, exampleOption ''b'' True, exampleOption ''c'' True]))) \<and>
   snd (handleSaveChanges (resetFromQuestion (exampleQuestion ''q1'' False
        [exampleOption ''a'' False, exampleOption ''b'' True, exampleOption ''c'' True]))) =
     Some (exampleQuestion ''q1'' False
        [exampleOption ''a'' False, exampleOption ''b'' True, exampleOption ''c'' False]) \<and>
   length (filter isCorrect (options (exampleQuestion ''q1'' False
        [exampleOption ''a'' False, exampleOption ''b'' True, exampleOption ''c'' False]))) = 1"
proof -
  let ?e = "resetFromQuestion (exampleQuestion ''q1'' False
        [exampleOption ''a'' False, exampleOption ''b'' True, exampleOption ''c'' True])"
  let ?q = "exampleQuestion ''q1'' False
        [exampleOption ''a'' False, exampleOption ''b'' True, exampleOption ''c'' False]"
  have single: "\<not> isMultipleChoice (question ?e)"
    by (simp add: example_defs)
  have saved: "handleSaveChanges ?e = (?e\<lparr>editedOptions := options ?q\<rparr>, Some ?q)"
    by (simp add: handleSaveChanges_def Let_def example_defs trim_defs)
  from single_answer_save [OF single] saved
  have "length (filter isCorrect (options ?q)) = 1"
    by blast
  with single saved show ?thesis
    by simp
qed

subsection \<open>Multi-answer questions\<close>

text \<open>
  The save of a multi-answer question only checks that some option is correct. With one
  correct option out of two the save is committed as it is, so the committed question
  does not have two correct options.
\<close>

theorem multi_answer_save_counterexample:
  "isMultipleChoice (question (resetFromQuestion (exampleQuestion ''q1'' True
        [exampleOption ''a'' True, exampleOption ''b'' False]))) \<and>
   snd (handleSaveChanges (resetFromQuestion (exampleQuestion ''q1'' True
        [exampleOption ''a'' True, exampleOption ''b'' False]))) =
     Some (exampleQuestion ''q1'' True [exampleOption ''a'' True, exampleOption ''b'' False]) \<and>
   length (filter isCorrect (options (exampleQuestion ''q1'' True
        [exampleOption ''a'' True, exampleOption ''b'' False]))) = 1"
  by (simp add: handleSaveChanges_def example_defs trim_defs)

text \<open>
  Claim C4, as the code has it. For a multi-answer question, every save that is
  committed passes on the edited options unchanged, and at least one of them is
  correct.
\<close>

theorem multi_answer_save:
  assumes "isMultipleChoice (question e)"
  shows "\<forall>e' q'. handleSaveChanges e = (e', Some q') \<longrightarrow>
           options q' = editedOptions e \<and> 1 \<le> length (filter isCorrect (options q'))"
proof (intro allI impI)
  fix e' q'
  assume saved: "handleSaveChanges e = (e', Some q')"
  have "options q' = editedOptions e"
    using handleSaveChanges_committed(5) [OF saved assms] .
  moreover have "filter isCorrect (editedOptions e) \<noteq> []"
    using handleSaveChanges_committed(1) [OF saved] .
  ultimately show "options q' = editedOptions e \<and> 1 \<le> length (filter isCorrect (options q'))"
    by (cases "filter isCorrect (editedOptions e)") auto
qed

theorem multi_answer_save_witness:
  "isMultipleChoice (question (resetFromQuestion (exampleQuestion ''q1'' True
        [exampleOption ''a'' True, exampleOption ''b'' True, exampleOption ''c'' False]))) \<and>
   snd (handleSaveChanges (resetFromQuestion (exampleQuestion ''q1'' True
        [exampleOption ''a'' True, exampleOption ''b'' True, exampleOption ''c'' False]))) =
     Some (exampleQuestion ''q1'' True
        [exampleOption ''a'' True, exampleOption ''b'' True, exampleOption ''c'' False]) \<and>
   1 \<le> length (filter isCorrect (options (exampleQuestion ''q1'' True
        [exampleOption ''a'' True, exampleOption ''b'' True, exampleOption ''c'' False])))"
proof -
  let ?q = "exampleQuestion ''q1'' True
        [exampleOption ''a'' True, exampleOption ''b'' True, exampleOption ''c'' False]"
  have multi: "isMultipleChoice (question (resetFromQuestion ?q))"
    by (simp add: example_defs)
  have saved: "handleSaveChanges (resetFromQuestion ?q) = (resetFromQuestion ?q, Some ?q)"
    by (simp add: handleSaveChanges_def example_defs trim_defs)
  from multi_answer_save [OF multi] saved
  have "1 \<le> length (filter isCorrect (options ?q))"
    by blast
  with multi saved show ?thesis
    by simp
qed

subsection \<open>Editing steps on options with distinct identifiers\<close>

lemma filter_distinct_le_one:
  "distinct (map f xs) \<Longrightarrow> length (filter (\<lambda>x. f x = a) xs) \<le> 1"
  by (induction xs) (auto simp: filter_empty_conv image_iff)

lemma filter_other_ids_length:
  assumes "distinct (map f xs)"
  shows "length xs \<le> Suc (length (filter (\<lambda>x. f x \<noteq> a) xs))"
  using filter_distinct_le_one [OF assms, of a] sum_length_filter_compl [of "\<lambda>x. f x = a" xs]
  by simp

lemma findIndex_less: "findIndex P xs = Some i \<Longrightarrow> i < length xs"
  by (induction xs arbitrary: i) (auto split: if_splits)

lemma optionId_toggle:
  "map optionId (xs[i := (xs ! i)\<lparr>isCorrect := b\<rparr>]) = map optionId xs"
  by (cases "i < length xs") (simp_all add: map_update list_update_same_conv list_update_beyond)

lemma optionId_clear: "map optionId (map (\<lambda>opt. opt\<lparr>isCorrect := False\<rparr>) xs) = map optionId xs"
  by (simp add: comp_def)

lemma optionIds_handleOptionCorrectChange:
  "map optionId (editedOptions (handleOptionCorrectChange oid e)) = map optionId (editedOptions e)"
  by (auto simp: handleOptionCorrectChange_def Let_def optionId_toggle optionId_clear
      split: option.splits)

lemma question_handleOptionCorrectChange: "question (handleOptionCorrectChange oid e) = question e"
  by (auto simp: handleOptionCorrectChange_def Let_def split: option.splits)

lemma optionIds_handleOptionTextChange:
  "map optionId (editedOptions (handleOptionTextChange oid newText e)) = map optionId (editedOptions e)"
  by (simp add: handleOptionTextChange_def comp_def if_distrib [of optionId] cong: if_cong)

lemma wellFormed_deleteOption: "wellFormed e \<Longrightarrow> wellFormed (deleteOption oid e)"
  using filter_other_ids_length [of optionId "editedOptions e" oid]
  by (auto simp: wellFormed_def deleteOption_def distinct_map_filter)

lemma wellFormed_save:
  assumes "wellFormed e"
  shows "wellFormed (editorStep validated SaveChanges e)"
proof (cases "handleSaveChanges e")
  case (Pair e' committed)
  have same: "map optionId (editedOptions e') = map optionId (editedOptions e)" "question e' = question e"
    using Pair by (auto simp: handleSaveChanges_def Let_def optionId_keepFirstCorrect split: if_splits)
  from same(1) have len: "length (editedOptions e') = length (editedOptions e)"
    by (rule map_eq_imp_length_eq)
  have e': "wellFormed e'"
    using assms same len by (simp add: wellFormed_def)
  show ?thesis
  proof (cases committed)
    case None
    with Pair e' show ?thesis by (simp add: editorStep_def)
  next
    case (Some q')
    have "options q' = editedOptions e'"
      using handleSaveChanges_committed(4) Pair Some by blast
    with e' have "wellFormed (resetFromQuestion q')"
      by (simp add: wellFormed_def resetFromQuestion_def)
    moreover have "wellFormed (resetFromQuestion (question e'))"
      using e' by (simp add: wellFormed_def resetFromQuestion_def)
    ultimately show ?thesis
      using Pair Some e' by (simp add: editorStep_def)
  qed
qed

lemma wellFormed_editorStep: "wellFormed e \<Longrightarrow> wellFormed (editorStep validated a e)"
proof (cases a)
  case (QuestionTextChange newText)
  assume "wellFormed e"
  then show ?thesis
    by (simp add: QuestionTextChange editorStep_def handleQuestionTextChange_def wellFormed_def)
next
  case (OptionTextChange oid newText)
  assume "wellFormed e"
  moreover have "length (editedOptions (handleOptionTextChange oid newText e)) = length (editedOptions e)"
    by (simp add: handleOptionTextChange_def)
  moreover have "question (handleOptionTextChange oid newText e) = question e"
    by (simp add: handleOptionTextChange_def)
  ultimately show ?thesis
    by (simp add: OptionTextChange editorStep_def wellFormed_def optionIds_handleOptionTextChange)
next
  case (OptionCorrectChange oid)
  assume wf: "wellFormed e"
  have "length (editedOptions (handleOptionCorrectChange oid e)) = length (editedOptions e)"
    using optionIds_handleOptionCorrectChange [of oid e] by (rule map_eq_imp_length_eq)
  with wf show ?thesis
    by (simp add: OptionCorrectChange editorStep_def wellFormed_def
        optionIds_handleOptionCorrectChange question_handleOptionCorrectChange)
next
  case (DeleteOption oid)
  assume "wellFormed e"
  then show ?thesis
    by (simp add: DeleteOption editorStep_def wellFormed_deleteOption)
next
  case SaveChanges
  assume "wellFormed e"
  then show ?thesis
    unfolding SaveChanges by (rule wellFormed_save)
qed

lemma wellFormed_editorRun: "wellFormed e \<Longrightarrow> wellFormed (editorRun steps e)"
  by (induction steps arbitrary: e) (auto simp: wellFormed_editorStep)

section \<open>Properties of the quiz state store\<close>

lemma findIndex_first:
  "i < length xs \<Longrightarrow> P (xs ! i) \<Longrightarrow> \<forall>j<i. \<not> P (xs ! j) \<Longrightarrow> findIndex P xs = Some i"
proof (induction xs arbitrary: i)
  case Nil
  then show ?case by simp
next
  case (Cons x xs)
  show ?case
  proof (cases i)
    case 0
    with Cons.prems show ?thesis by simp
  next
    case (Suc n)
    with Cons.prems have "\<not> P x" by auto
    moreover have "findIndex P xs = Some n"
    proof (rule Cons.IH)
      show "n < length xs" using Cons.prems Suc by simp
      show "P (xs ! n)" using Cons.prems Suc by simp
      show "\<forall>j<n. \<not> P (xs ! j)" using Cons.prems(3) Suc by force
    qed
    ultimately show ?thesis using Suc by simp
  qed
qed

lemma findIndex_absent: "\<forall>x\<in>set xs. \<not> P x \<Longrightarrow> findIndex P xs = None"
  by (induction xs) auto

lemma splice_nth:
  assumes "start \<le> length xs"
  shows "length (splice start x xs) = Suc (length xs)"
    and "splice start x xs ! start = x"
    and "\<And>j. j < start \<Longrightarrow> splice start x xs ! j = xs ! j"
    and "\<And>j. start \<le> j \<Longrightarrow> j < length xs \<Longrightarrow> splice start x xs ! Suc j = xs ! j"
proof -
  show "length (splice start x xs) = Suc (length xs)"
    using assms by (simp add: splice_def)
  show "splice start x xs ! start = x"
    using assms by (simp add: splice_def nth_append)
  show "splice start x xs ! j = xs ! j" if "j < start" for j
    using assms that by (simp add: splice_def nth_append)
  show "splice start x xs ! Suc j = xs ! j" if "start \<le> j" "j < length xs" for j
  proof -
    have "splice start x xs ! Suc j = (x # drop start xs) ! (Suc j - start)"
      using assms that by (simp add: splice_def nth_append)
    also have "Suc j - start = Suc (j - start)"
      using that by simp
    also have "(x # drop start xs) ! Suc (j - start) = xs ! j"
      using assms that by simp
    finally show ?thesis .
  qed
qed

text \<open>
  Claim C7. When the regeneration of the question with identifier \<open>qid\<close> returns a
  question and \<open>i\<close> is the first position of the quiz list at which a question carries
  \<open>qid\<close>, the new question is put at position \<open>i + 1\<close>, the questions up to
  position \<open>i\<close> stay where they are and every later question moves back by one. When
  no question of the list carries \<open>qid\<close> any more, the list stays as it is.
\<close>

theorem insert_after_original:
  "(i < length (editableQuiz st) \<and> questionId (editableQuiz st ! i) = qid \<and>
    (\<forall>j<i. questionId (editableQuiz st ! j) \<noteq> qid) \<longrightarrow>
      length (editableQuiz (regenerateSettled qid (Resolved (Some newQuestion)) st)) =
        Suc (length (editableQuiz st)) \<and>
      editableQuiz (regenerateSettled qid (Resolved (Some newQuestion)) st) ! (i + 1) = newQuestion \<and>
      (\<forall>j\<le>i. editableQuiz (regenerateSettled qid (Resolved (Some newQuestion)) st) ! j =
          editableQuiz st ! j) \<and>
      (\<forall>j. i < j \<and> j < length (editableQuiz st) \<longrightarrow>
          editableQuiz (regenerateSettled qid (Resolved (Some newQuestion)) st) ! (j + 1) =
          editableQuiz st ! j)) \<and>
   ((\<forall>q\<in>set (editableQuiz st). questionId q \<noteq> qid) \<longrightarrow>
      editableQuiz (regenerateSettled qid (Resolved (Some newQuestion)) st) = editableQuiz st)"
proof (intro conjI impI)
  assume present: "i < length (editableQuiz st) \<and> questionId (editableQuiz st ! i) = qid \<and>
    (\<forall>j<i. questionId (editableQuiz st ! j) \<noteq> qid)"
  then have "findIndex (\<lambda>q. questionId q = qid) (editableQuiz st) = Some i"
    by (intro findIndex_first) auto
  then have new: "editableQuiz (regenerateSettled qid (Resolved (Some newQuestion)) st) =
      splice (i + 1) newQuestion (editableQuiz st)"
    by (simp add: regenerateSettled_def insertAlternative_def)
  have bound: "i + 1 \<le> length (editableQuiz st)"
    using present by simp
  show "length (editableQuiz (regenerateSettled qid (Resolved (Some newQuestion)) st)) =
        Suc (length (editableQuiz st))"
    unfolding new by (rule splice_nth(1) [OF bound])
  show "editableQuiz (regenerateSettled qid (Resolved (Some newQuestion)) st) ! (i + 1) = newQuestion"
    unfolding new by (rule splice_nth(2) [OF bound])
  show "\<forall>j\<le>i. editableQuiz (regenerateSettled qid (Resolved (Some newQuestion)) st) ! j =
          editableQuiz st ! j"
    unfolding new using splice_nth(3) [OF bound] by simp
  show "\<forall>j. i < j \<and> j < length (editableQuiz st) \<longrightarrow>
          editableQuiz (regenerateSettled qid (Resolved (Some newQuestion)) st) ! (j + 1) =
          editableQuiz st ! j"
    unfolding new using splice_nth(4) [OF bound] by simp
next
  assume "\<forall>q\<in>set (editableQuiz st). questionId q \<noteq> qid"
  then have "findIndex (\<lambda>q. questionId q = qid) (editableQuiz st) = None"
    by (rule findIndex_absent)
  then show "editableQuiz (regenerateSettled qid (Resolved (Some newQuestion)) st) = editableQuiz st"
    by (simp add: regenerateSettled_def insertAlternative_def)
qed

theorem insert_after_original_witness:
  "editableQuiz (regenerateSettled (js ''q2'') (Resolved (Some (exampleQuestion ''q9'' False [])))
      (exampleApp [exampleQuestion ''q1'' False [], exampleQuestion ''q2'' False [],
                   exampleQuestion ''q3'' True []] False)) =
     [exampleQuestion ''q1'' False [], exampleQuestion ''q2'' False [],
      exampleQuestion ''q9'' False [], exampleQuestion ''q3'' True []] \<and>
   editableQuiz (regenerateSettled (js ''q4'') (Resolved (Some (exampleQuestion ''q9'' False [])))
      (exampleApp [exampleQuestion ''q1'' False [], exampleQuestion ''q2'' False [],
                   exampleQuestion ''q3'' True []] False)) =
     [exampleQuestion ''q1'' False [], exampleQuestion ''q2'' False [], exampleQuestion ''q3'' True []]"
proof -
  let ?q1 = "exampleQuestion ''q1'' False []"
  let ?q2 = "exampleQuestion ''q2'' False []"
  let ?q3 = "exampleQuestion ''q3'' True []"
  let ?new = "exampleQuestion ''q9'' False []"
  let ?st = "exampleApp [?q1, ?q2, ?q3] False"
  let ?after = "editableQuiz (regenerateSettled (js ''q2'') (Resolved (Some ?new)) ?st)"
  have quiz: "editableQuiz ?st = [?q1, ?q2, ?q3]"
    by (simp add: exampleApp_def)
  have present: "1 < length (editableQuiz ?st) \<and> questionId (editableQuiz ?st ! 1) = js ''q2'' \<and>
      (\<forall>j<1. questionId (editableQuiz ?st ! j) \<noteq> js ''q2'')"
    by (simp add: example_defs)
  have absent: "\<forall>q\<in>set (editableQuiz ?st). questionId q \<noteq> js ''q4''"
    by (simp add: example_defs)
  from insert_after_original [of 1 ?st "js ''q2''" ?new] present
  have len: "length ?after = Suc (length (editableQuiz ?st))"
    and new: "?after ! (1 + 1) = ?new"
    and before: "\<forall>j\<le>1. ?after ! j = editableQuiz ?st ! j"
    and later: "\<forall>j. 1 < j \<and> j < length (editableQuiz ?st) \<longrightarrow> ?after ! (j + 1) = editableQuiz ?st ! j"
    by blast+
  have "?after ! 0 = ?q1" "?after ! 1 = ?q2"
    using before quiz by simp_all
  moreover have "?after ! 2 = ?new"
    using new by (simp add: numeral_2_eq_2)
  moreover have "?after ! 3 = ?q3"
    using later [rule_format, of 2] quiz by simp
  moreover have "length ?after = 4"
    using len quiz by simp
  ultimately have "?after = [?q1, ?q2, ?new, ?q3]"
    by (intro nth_equalityI) (auto simp: less_Suc_eq numeral_eq_Suc)
  moreover from insert_after_original [of 1 ?st "js ''q4''" ?new] absent
  have "editableQuiz (regenerateSettled (js ''q4'') (Resolved (Some ?new)) ?st) = editableQuiz ?st"
    by blast
  ultimately show ?thesis
    using quiz by simp
qed

text \<open>
  Claim C8. \<open>handleUpdateQuestion\<close> keeps the length of the quiz list; unless the quiz
  is validated, each position holds the updated question if the question there had its
  identifier and the question it held otherwise; when the quiz is validated the state
  is unchanged; and no other part of the state changes.
\<close>

theorem update_question_frame:
  "length (editableQuiz (handleUpdateQuestion updatedQuestion st)) = length (editableQuiz st) \<and>
   (\<not> isQuizValidated st \<longrightarrow>
      (\<forall>i<length (editableQuiz st).
         editableQuiz (handleUpdateQuestion updatedQuestion st) ! i =
           (if questionId (editableQuiz st ! i) = questionId updatedQuestion
            then updatedQuestion else editableQuiz st ! i))) \<and>
   (isQuizValidated st \<longrightarrow> handleUpdateQuestion updatedQuestion st = st) \<and>
   handleUpdateQuestion updatedQuestion st =
     st\<lparr>editableQuiz := editableQuiz (handleUpdateQuestion updatedQuestion st)\<rparr>"
  by (simp add: handleUpdateQuestion_def)

theorem update_question_frame_witness:
  "editableQuiz (handleUpdateQuestion (exampleQuestion ''q2'' True [exampleOption ''a'' True])
      (exampleApp [exampleQuestion ''q1'' False [], exampleQuestion ''q2'' False []] False)) =
     [exampleQuestion ''q1'' False [], exampleQuestion ''q2'' True [exampleOption ''a'' True]] \<and>
   handleUpdateQuestion (exampleQuestion ''q2'' True [exampleOption ''a'' True])
      (exampleApp [exampleQuestion ''q1'' False [], exampleQuestion ''q2'' False []] True) =
     exampleApp [exampleQuestion ''q1'' False [], exampleQuestion ''q2'' False []] True"
proof -
  let ?q1 = "exampleQuestion ''q1'' False []"
  let ?q2 = "exampleQuestion ''q2'' False []"
  let ?u = "exampleQuestion ''q2'' True [exampleOption ''a'' True]"
  let ?st = "exampleApp [?q1, ?q2] False"
  let ?after = "editableQuiz (handleUpdateQuestion ?u ?st)"
  have quiz: "editableQuiz ?st = [?q1, ?q2]" and open_: "\<not> isQuizValidated ?st"
    and closed: "isQuizValidated (exampleApp [?q1, ?q2] True)"
    by (simp_all add: exampleApp_def)
  have ids: "questionId ?q1 \<noteq> questionId ?u" "questionId ?q2 = questionId ?u"
    by (simp_all add: example_defs)
  from update_question_frame [of ?u ?st] open_
  have len: "length ?after = length (editableQuiz ?st)"
    and each: "\<forall>i<length (editableQuiz ?st). ?after ! i =
        (if questionId (editableQuiz ?st ! i) = questionId ?u then ?u else editableQuiz ?st ! i)"
    by blast+
  have "?after ! 0 = ?q1" "?after ! 1 = ?u"
    using each [rule_format, of 0] each [rule_format, of 1] quiz ids by simp_all
  moreover have "length ?after = 2"
    using len quiz by simp
  ultimately have "?after = [?q1, ?u]"
    by (intro nth_equalityI) (auto simp: less_Suc_eq numeral_eq_Suc)
  moreover from update_question_frame [of ?u "exampleApp [?q1, ?q2] True"] closed
  have "handleUpdateQuestion ?u (exampleApp [?q1, ?q2] True) = exampleApp [?q1, ?q2] True"
    by blast
  ultimately show ?thesis
    by simp
qed

text \<open>
  \<open>handleValidateQuiz\<close> succeeds (shows no alert) exactly when the quiz list is not
  empty and every question has an option marked correct. When it fails the state is
  unchanged. When it succeeds only the validated flag changes, to true, and in the
  resulting state \<open>handleUpdateQuestion\<close>, \<open>handleDeleteQuestion\<close>,
  \<open>handleRegenerateAlternativeQuestion\<close> and \<open>handleAddMoreQuestions\<close> change nothing
  and send no request.
\<close>

lemma validate_quiz:
  "(snd (handleValidateQuiz st) = None \<longleftrightarrow>
      editableQuiz st \<noteq> [] \<and>
      (\<forall>q\<in>set (editableQuiz st). \<exists>opt\<in>set (options q). isCorrect opt)) \<and>
   (snd (handleValidateQuiz st) \<noteq> None \<longrightarrow> fst (handleValidateQuiz st) = st) \<and>
   (snd (handleValidateQuiz st) = None \<longrightarrow>
      fst (handleValidateQuiz st) = st\<lparr>isQuizValidated := True\<rparr> \<and>
      handleUpdateQuestion updatedQuestion (fst (handleValidateQuiz st)) = fst (handleValidateQuiz st) \<and>
      handleDeleteQuestion qid (fst (handleValidateQuiz st)) = fst (handleValidateQuiz st) \<and>
      handleRegenerateAlternativeQuestion qid (fst (handleValidateQuiz st)) =
        (fst (handleValidateQuiz st), None) \<and>
      handleAddMoreQuestions (fst (handleValidateQuiz st)) = (fst (handleValidateQuiz st), None))"
  by (auto simp: handleValidateQuiz_def Let_def list_all_iff list_ex_iff handleUpdateQuestion_def
      handleDeleteQuestion_def handleRegenerateAlternativeQuestion_def handleAddMoreQuestions_def
      split: option.splits)

lemma validate_quiz_examples:
  "handleValidateQuiz (exampleApp [exampleQuestion ''q1'' False
        [exampleOption ''a'' False, exampleOption ''b'' True]] False) =
     (exampleApp [exampleQuestion ''q1'' False
        [exampleOption ''a'' False, exampleOption ''b'' True]] True, None) \<and>
   handleDeleteQuestion (js ''q1'') (exampleApp [exampleQuestion ''q1'' False
        [exampleOption ''a'' False, exampleOption ''b'' True]] True) =
     exampleApp [exampleQuestion ''q1'' False
        [exampleOption ''a'' False, exampleOption ''b'' True]] True \<and>
   handleValidateQuiz (exampleApp [exampleQuestion ''q1'' False
        [exampleOption ''a'' False, exampleOption ''b'' False]] False) =
     (exampleApp [exampleQuestion ''q1'' False
        [exampleOption ''a'' False, exampleOption ''b'' False]] False, Some NoCorrectAnswerAlert) \<and>
   handleValidateQuiz (exampleApp [] False) = (exampleApp [] False, Some EmptyQuizAlert)"
proof -
  let ?good = "exampleApp [exampleQuestion ''q1'' False
        [exampleOption ''a'' False, exampleOption ''b'' True]] False"
  let ?bad = "exampleApp [exampleQuestion ''q1'' False
        [exampleOption ''a'' False, exampleOption ''b'' False]] False"
  let ?empty = "exampleApp [] False :: jsstring app"
  have good: "editableQuiz ?good \<noteq> [] \<and>
      (\<forall>q\<in>set (editableQuiz ?good). \<exists>opt\<in>set (options q). isCorrect opt)"
    by (simp add: example_defs)
  have bad: "\<not> (editableQuiz ?bad \<noteq> [] \<and>
      (\<forall>q\<in>set (editableQuiz ?bad). \<exists>opt\<in>set (options q). isCorrect opt))"
    by (simp add: example_defs)
  have empty: "\<not> (editableQuiz ?empty \<noteq> [] \<and>
      (\<forall>q\<in>set (editableQuiz ?empty). \<exists>opt\<in>set (options q). isCorrect opt))"
    by (simp add: example_defs)
  have validated: "?good\<lparr>isQuizValidated := True\<rparr> = exampleApp [exampleQuestion ''q1'' False
        [exampleOption ''a'' False, exampleOption ''b'' True]] True"
    by (simp add: exampleApp_def)
  from validate_quiz [of ?good _ "js ''q1''"] good
  have "snd (handleValidateQuiz ?good) = None"
    and "fst (handleValidateQuiz ?good) = ?good\<lparr>isQuizValidated := True\<rparr>"
    and "handleDeleteQuestion (js ''q1'') (fst (handleValidateQuiz ?good)) = fst (handleValidateQuiz ?good)"
    by blast+
  then have 1: "handleValidateQuiz ?good = (?good\<lparr>isQuizValidated := True\<rparr>, None)"
    and 2: "handleDeleteQuestion (js ''q1'') (?good\<lparr>isQuizValidated := True\<rparr>) = ?good\<lparr>isQuizValidated := True\<rparr>"
    by (simp_all add: prod_eq_iff)
  from validate_quiz [of ?bad] bad
  have "snd (handleValidateQuiz ?bad) \<noteq> None" and "fst (handleValidateQuiz ?bad) = ?bad"
    by blast+
  moreover have "snd (handleValidateQuiz ?bad) = None \<or> snd (handleValidateQuiz ?bad) = Some NoCorrectAnswerAlert"
    by (simp add: handleValidateQuiz_def example_defs)
  ultimately have 3: "handleValidateQuiz ?bad = (?bad, Some NoCorrectAnswerAlert)"
    by (auto simp: prod_eq_iff)
  from validate_quiz [of ?empty] empty
  have "snd (handleValidateQuiz ?empty) \<noteq> None" and "fst (handleValidateQuiz ?empty) = ?empty"
    by blast+
  moreover have "snd (handleValidateQuiz ?empty) = None \<or> snd (handleValidateQuiz ?empty) = Some EmptyQuizAlert"
    by (simp add: handleValidateQuiz_def example_defs)
  ultimately have 4: "handleValidateQuiz ?empty = (?empty, Some EmptyQuizAlert)"
    by (auto simp: prod_eq_iff)
  from 1 2 3 4 show ?thesis
    unfolding validated by simp
qed

text \<open>
  Claim C10 says that once validation succeeds the validated flag is set and disables
  update, delete, regeneration and batch addition. The handlers are guarded as the
  lemma above says, but the part of \<open>handleRegenerateAlternativeQuestion\<close> after its
  \<open>await\<close> does not read the flag, and the button that validates is not disabled
  while a regeneration is pending. So the claim fails on this run: the alternative to
  the only question is requested, the quiz is validated, and the answer of the service
  arrives. The validated quiz then has a second question, here one with no option
  marked correct.
\<close>

theorem pending_regeneration_after_validation:
  "handleRegenerateAlternativeQuestion (js ''q1'')
      (exampleApp [exampleQuestion ''q1'' False [exampleOption ''a'' True, exampleOption ''b'' False]]
         False) =
     ((exampleApp [exampleQuestion ''q1'' False [exampleOption ''a'' True, exampleOption ''b'' False]]
         False)\<lparr>regeneratingQuestionId := Some (js ''q1'')\<rparr>,
      Some (exampleQuestion ''q1'' False [exampleOption ''a'' True, exampleOption ''b'' False],
            exampleSettings)) \<and>
   handleValidateQuiz
      ((exampleApp [exampleQuestion ''q1'' False [exampleOption ''a'' True, exampleOption ''b'' False]]
         False)\<lparr>regeneratingQuestionId := Some (js ''q1'')\<rparr>) =
     ((exampleApp [exampleQuestion ''q1'' False [exampleOption ''a'' True, exampleOption ''b'' False]]
         True)\<lparr>regeneratingQuestionId := Some (js ''q1'')\<rparr>, None) \<and>
   regenerateSettled (js ''q1'')
      (Resolved (Some (exampleQuestion ''q2'' False
         [exampleOption ''c'' False, exampleOption ''d'' False])))
      ((exampleApp [exampleQuestion ''q1'' False [exampleOption ''a'' True, exampleOption ''b'' False]]
         True)\<lparr>regeneratingQuestionId := Some (js ''q1'')\<rparr>) =
     exampleApp
       [exampleQuestion ''q1'' False [exampleOption ''a'' True, exampleOption ''b'' False],
        exampleQuestion ''q2'' False [exampleOption ''c'' False, exampleOption ''d'' False]]
       True"
  by (simp add: handleRegenerateAlternativeQuestion_def handleValidateQuiz_def regenerateSettled_def
      insertAlternative_def splice_def example_defs)

section \<open>Properties of the response parser\<close>

lemmas parser_defs =
  parseGeneratedQuiz_def alternativeOfResponse_def js_def cleanJsonString_def fenced_def
  trim_def trimStart_def trimEnd_def isWhiteSpace_def
  fenceMatch_def matchesJson_def isAsciiLetter_def JSON_parse_def isJsonWhiteSpace_def isDigit_def
  consToken_def consChar_def lexNumber_def lexInteger_def lexFraction_def lexExponent_def Let_def
  digitsValue_def unescape_def hexValue_def
  toQuizQuestion_def toQuizOption_def orElse_def toBoolean_def roundsToZero_def optionsOf_def
  throwsTypeError_def exampleUuid_def decimal.simps

subsection \<open>The LaTeX heuristic\<close>

lemma backslash_not_letter: "\<not> isAsciiLetter 92"
  by (simp add: isAsciiLetter_def)

lemma followedByTwoLetters_takeWhile:
  "followedByTwoLetters s \<longleftrightarrow> 2 \<le> length (takeWhile isAsciiLetter s)"
  by (auto simp: followedByTwoLetters_def split: list.splits)

lemma doubledBackslashes_letters:
  "\<forall>c\<in>set ls. isAsciiLetter c \<Longrightarrow> doubledBackslashes (ls @ rest) = ls @ doubledBackslashes rest"
  using backslash_not_letter by (induction ls) auto

lemma doubledBackslashes_skip_letters:
  "doubledBackslashes s =
     takeWhile isAsciiLetter s @ doubledBackslashes (dropWhile isAsciiLetter s)"
proof -
  have "doubledBackslashes (takeWhile isAsciiLetter s @ dropWhile isAsciiLetter s) =
      takeWhile isAsciiLetter s @ doubledBackslashes (dropWhile isAsciiLetter s)"
    by (rule doubledBackslashes_letters) (auto dest: set_takeWhileD)
  then show ?thesis
    by simp
qed

text \<open>
  Claim C2. The heuristic copies every character of the fence-stripped string in its
  place, except that each backslash immediately followed by at least two ASCII letters
  is written twice; the letters after it are copied like any other character. This is
  so for a backslash that follows another backslash as well.
\<close>

theorem replaceLatex_doubles_backslashes: "replaceLatex s = doubledBackslashes s"
proof (induction s rule: replaceLatex.induct)
  case 1
  show ?case by simp
next
  case (2 c s)
  show ?case
  proof (cases "c = 92 \<and> 2 \<le> length (takeWhile isAsciiLetter s)")
    case True
    then have "replaceLatex (c # s) =
        92 # 92 # takeWhile isAsciiLetter s @ doubledBackslashes (dropWhile isAsciiLetter s)"
      using "2.IH"(1) by simp
    also have "\<dots> = 92 # 92 # doubledBackslashes s"
      using doubledBackslashes_skip_letters [of s] by simp
    also have "\<dots> = doubledBackslashes (c # s)"
      using True by (simp add: followedByTwoLetters_takeWhile)
    finally show ?thesis .
  next
    case False
    then have "replaceLatex (c # s) = c # doubledBackslashes s"
      using "2.IH"(2) by auto
    also have "\<dots> = doubledBackslashes (c # s)"
      using False by (auto simp: followedByTwoLetters_takeWhile)
    finally show ?thesis .
  qed
qed

theorem replaceLatex_doubles_backslashes_witness:
  "replaceLatex (js ''{x: '' @ 92 # js ''frac{1}{2} '' @ 92 # js ''n '' @ 92 # 92 # js ''pi '' @ 92 # js ''1''  @ [92, 34]) =
     js ''{x: '' @ 92 # 92 # js ''frac{1}{2} '' @ 92 # js ''n '' @ 92 # 92 # 92 # js ''pi '' @ 92 # js ''1'' @ [92, 34]"
  using replaceLatex_doubles_backslashes
    [of "js ''{x: '' @ 92 # js ''frac{1}{2} '' @ 92 # js ''n '' @ 92 # 92 # js ''pi '' @ 92 # js ''1'' @ [92, 34]"]
  by (simp add: js_def followedByTwoLetters_def isAsciiLetter_def)

subsection \<open>From the parsed array to the questions\<close>

lemma toQuizOption_None: "toQuizOption newId opt = None \<longleftrightarrow> opt = JNull"
  by (simp add: toQuizOption_def)

lemma mapOptions_None: "mapOptions uuid k opts = None \<longleftrightarrow> JNull \<in> set opts"
  by (induction opts arbitrary: k) (auto simp: toQuizOption_def split: option.splits if_splits)

lemma mapOptions_Some:
  assumes "mapOptions uuid k opts = Some (quizOptions, k')"
  shows "k' = k + length opts"
    and "length quizOptions = length opts"
    and "\<And>j. j < length opts \<Longrightarrow>
          quizOptions ! j =
            \<lparr>optionId = uuid (k + j),
             optionText = orElse (property (opts ! j) (js ''text'')) (JString (js ''Option vide'')),
             isCorrect = toBoolean (property (opts ! j) (js ''isCorrect''))\<rparr>"
  using assms
proof (induction opts arbitrary: k quizOptions)
  case Nil
  {
    case 1 then show ?case by simp
  next
    case 2 then show ?case by simp
  next
    case 3 then show ?case by simp
  }
next
  case (Cons opt opts)
  {
    case 1
    then show ?case
      using Cons.IH(1) by (fastforce split: option.splits)
  next
    case 2
    then show ?case
      using Cons.IH(2) by (fastforce split: option.splits)
  next
    case (3 j)
    from "3.prems"(2) obtain quizOption rest where
      head: "toQuizOption (uuid k) opt = Some quizOption" and
      tail: "mapOptions uuid (Suc k) opts = Some (rest, k')" and
      whole: "quizOptions = quizOption # rest"
      by (auto split: option.splits)
    show ?case
    proof (cases j)
      case 0
      with head whole show ?thesis
        by (auto simp: toQuizOption_def split: if_splits)
    next
      case (Suc n)
      with "3.prems"(1) have "n < length opts" by simp
      from Cons.IH(3) [OF this tail] show ?thesis
        using whole Suc by simp
    qed
  }
qed

lemma toQuizQuestion_optionsOf:
  "toQuizQuestion uuid k index q =
     (if q = JNull then None
      else
        (case mapOptions uuid (Suc k) (optionsOf q) of
           None \<Rightarrow> None
         | Some (quizOptions, k') \<Rightarrow>
             Some (\<lparr>questionId = uuid k,
                    questionText =
                      orElse (property q (js ''questionText''))
                        (JString (js ''Question '' @ decimal (index + 1) @ js '' sans texte'')),
                    options = quizOptions,
                    isMultipleChoice = toBoolean (property q (js ''isMultipleChoice''))\<rparr>,
                   k')))"
proof -
  have "(case property q (js ''options'') of
           Some (JArray opts) \<Rightarrow> mapOptions uuid (Suc k) opts
         | _ \<Rightarrow> Some ([], Suc k)) = mapOptions uuid (Suc k) (optionsOf q)"
    by (simp add: optionsOf_def split: option.splits json.splits)
  then show ?thesis
    unfolding toQuizQuestion_def by (rule arg_cong)
qed

lemma toQuizQuestion_None: "toQuizQuestion uuid k index q = None \<longleftrightarrow> throwsTypeError q"
proof (cases "mapOptions uuid (Suc k) (optionsOf q)")
  case None
  then show ?thesis
    using mapOptions_None [of uuid "Suc k" "optionsOf q"]
    by (simp add: toQuizQuestion_optionsOf throwsTypeError_def)
next
  case (Some r)
  then show ?thesis
    using mapOptions_None [of uuid "Suc k" "optionsOf q"]
    by (simp add: toQuizQuestion_optionsOf throwsTypeError_def split: prod.splits)
qed

lemma toQuizQuestion_Some:
  assumes "toQuizQuestion uuid k index q = Some (quizQuestion, k')"
  shows "questionFrom index q quizQuestion"
proof -
  from assms obtain quizOptions where
    mapped: "mapOptions uuid (Suc k) (optionsOf q) = Some (quizOptions, k')" and
    whole: "quizQuestion = \<lparr>questionId = uuid k,
       questionText = orElse (property q (js ''questionText''))
         (JString (js ''Question '' @ decimal (index + 1) @ js '' sans texte'')),
       options = quizOptions,
       isMultipleChoice = toBoolean (property q (js ''isMultipleChoice''))\<rparr>"
    unfolding toQuizQuestion_optionsOf by (auto split: if_splits option.splits)
  show ?thesis
    using mapOptions_Some(2,3) [OF mapped] by (simp add: questionFrom_def whole)
qed

lemma mapQuestions_None:
  "mapQuestions uuid k index parsed = None \<longleftrightarrow> (\<exists>q\<in>set parsed. throwsTypeError q)"
proof (induction parsed arbitrary: k index)
  case Nil
  show ?case by simp
next
  case (Cons q parsed)
  show ?case
  proof (cases "toQuizQuestion uuid k index q")
    case None
    then show ?thesis
      using toQuizQuestion_None [of uuid k index q] by simp
  next
    case (Some r)
    obtain quizQuestion k' where r: "r = (quizQuestion, k')"
      by (cases r)
    have "\<not> throwsTypeError q"
      using Some toQuizQuestion_None [of uuid k index q] by simp
    moreover have "mapQuestions uuid k index (q # parsed) = None \<longleftrightarrow>
        mapQuestions uuid k' (Suc index) parsed = None"
      by (simp add: Some r split: option.splits)
    ultimately show ?thesis
      using Cons.IH [of k' "Suc index"] by simp
  qed
qed

lemma mapQuestions_Some:
  assumes "mapQuestions uuid k index parsed = Some quizQuestions"
  shows "length quizQuestions = length parsed"
    and "\<And>i. i < length parsed \<Longrightarrow> questionFrom (index + i) (parsed ! i) (quizQuestions ! i)"
  using assms
proof (induction parsed arbitrary: k index quizQuestions)
  case Nil
  {
    case 1 then show ?case by simp
  next
    case 2 then show ?case by simp
  }
next
  case (Cons q parsed)
  {
    case 1
    then show ?case
      using Cons.IH(1) by (fastforce split: option.splits)
  next
    case (2 i)
    from "2.prems"(2) obtain quizQuestion k' rest where
      head: "toQuizQuestion uuid k index q = Some (quizQuestion, k')" and
      tail: "mapQuestions uuid k' (Suc index) parsed = Some rest" and
      whole: "quizQuestions = quizQuestion # rest"
      by (auto split: option.splits)
    show ?case
    proof (cases i)
      case 0
      with toQuizQuestion_Some [OF head] whole show ?thesis
        by simp
    next
      case (Suc n)
      with "2.prems"(1) have "n < length parsed" by simp
      from Cons.IH(2) [OF this tail] show ?thesis
        using whole Suc by simp
    qed
  }
qed

lemma parseGeneratedQuiz_array:
  "JSON_parse (replaceLatex (cleanJsonString s)) = Some (JArray parsed) \<Longrightarrow>
   parseGeneratedQuiz uuid s = mapQuestions uuid 0 0 parsed"
  by (simp add: parseGeneratedQuiz_def)

lemma parseGeneratedQuiz_Some:
  "parseGeneratedQuiz uuid s = Some quizQuestions \<Longrightarrow>
   \<exists>parsed. JSON_parse (replaceLatex (cleanJsonString s)) = Some (JArray parsed)"
  by (auto simp: parseGeneratedQuiz_def Let_def split: option.splits json.splits)

text \<open>
  An array whose element is \<open>null\<close> is valid JSON, and the parser returns \<open>null\<close>
  for it: reading \<open>questionText\<close> of \<open>null\<close> throws inside the \<open>try\<close> block.
\<close>

theorem parseGeneratedQuiz_null_counterexample:
  "JSON_parse (replaceLatex (cleanJsonString (js ''[null]''))) = Some (JArray [JNull]) \<and>
   parseGeneratedQuiz exampleUuid (js ''[null]'') = None"
  by (simp add: parser_defs)

text \<open>
  Claim C9, as the code has it. \<open>parseGeneratedQuiz\<close> returns a result for every
  string. The result is \<open>null\<close> exactly when the string, after fence stripping and
  backslash doubling, is not valid JSON, or its value is not an array, or an element
  of the array is \<open>null\<close> or has an \<open>options\<close> array that holds a \<open>null\<close>.
  Otherwise the result has one question for each element of the array, in the same
  order: its text is the element's \<open>questionText\<close> if that is truthy and
  \<open>Question N sans texte\<close> (\<open>N\<close> the position, from one) if not, its multiple-choice
  flag is \<open>ToBoolean\<close> of the element's \<open>isMultipleChoice\<close>, and it has one option
  for each element of the element's \<open>options\<close> array (none when that is not an
  array), whose text is that element's \<open>text\<close> if truthy and \<open>Option vide\<close> if not,
  and whose correctness flag is \<open>ToBoolean\<close> of its \<open>isCorrect\<close>.
\<close>

theorem parseGeneratedQuiz_result:
  "(parseGeneratedQuiz uuid s = None \<longleftrightarrow>
      (\<forall>parsed. JSON_parse (replaceLatex (cleanJsonString s)) = Some (JArray parsed) \<longrightarrow>
         (\<exists>q\<in>set parsed. throwsTypeError q))) \<and>
   (\<forall>parsed quizQuestions.
      JSON_parse (replaceLatex (cleanJsonString s)) = Some (JArray parsed) \<and>
      parseGeneratedQuiz uuid s = Some quizQuestions \<longrightarrow>
        length quizQuestions = length parsed \<and>
        (\<forall>i<length parsed.
           questionText (quizQuestions ! i) =
             orElse (property (parsed ! i) (js ''questionText''))
               (JString (js ''Question '' @ decimal (i + 1) @ js '' sans texte'')) \<and>
           isMultipleChoice (quizQuestions ! i) =
             toBoolean (property (parsed ! i) (js ''isMultipleChoice'')) \<and>
           length (options (quizQuestions ! i)) = length (optionsOf (parsed ! i)) \<and>
           (\<forall>j<length (optionsOf (parsed ! i)).
              optionText (options (quizQuestions ! i) ! j) =
                orElse (property (optionsOf (parsed ! i) ! j) (js ''text''))
                  (JString (js ''Option vide'')) \<and>
              isCorrect (options (quizQuestions ! i) ! j) =
                toBoolean (property (optionsOf (parsed ! i) ! j) (js ''isCorrect'')))))"
proof (intro conjI allI impI)
  show "parseGeneratedQuiz uuid s = None \<longleftrightarrow>
      (\<forall>parsed. JSON_parse (replaceLatex (cleanJsonString s)) = Some (JArray parsed) \<longrightarrow>
         (\<exists>q\<in>set parsed. throwsTypeError q))"
  proof (cases "\<exists>parsed. JSON_parse (replaceLatex (cleanJsonString s)) = Some (JArray parsed)")
    case True
    then obtain parsed where
      parsed: "JSON_parse (replaceLatex (cleanJsonString s)) = Some (JArray parsed)"
      by blast
    show ?thesis
      using parseGeneratedQuiz_array [OF parsed, of uuid] mapQuestions_None [of uuid 0 0 parsed]
      by (simp add: parsed)
  next
    case False
    then have "parseGeneratedQuiz uuid s = None"
      using parseGeneratedQuiz_Some [of uuid s] by (cases "parseGeneratedQuiz uuid s") auto
    with False show ?thesis
      by simp
  qed
next
  fix parsed quizQuestions
  assume "JSON_parse (replaceLatex (cleanJsonString s)) = Some (JArray parsed) \<and>
      parseGeneratedQuiz uuid s = Some quizQuestions"
  then have mapped: "mapQuestions uuid 0 0 parsed = Some quizQuestions"
    using parseGeneratedQuiz_array [of s parsed uuid] by simp
  show "length quizQuestions = length parsed"
    using mapQuestions_Some(1) [OF mapped] .
  fix i
  assume "i < length parsed"
  from mapQuestions_Some(2) [OF mapped this]
  have matches: "questionFrom i (parsed ! i) (quizQuestions ! i)"
    by simp
  from matches show "questionText (quizQuestions ! i) =
      orElse (property (parsed ! i) (js ''questionText''))
        (JString (js ''Question '' @ decimal (i + 1) @ js '' sans texte''))"
    by (simp add: questionFrom_def)
  from matches show "isMultipleChoice (quizQuestions ! i) =
      toBoolean (property (parsed ! i) (js ''isMultipleChoice''))"
    by (simp add: questionFrom_def)
  from matches show "length (options (quizQuestions ! i)) = length (optionsOf (parsed ! i))"
    by (simp add: questionFrom_def)
  fix j
  assume "j < length (optionsOf (parsed ! i))"
  with matches show "optionText (options (quizQuestions ! i) ! j) =
      orElse (property (optionsOf (parsed ! i) ! j) (js ''text'')) (JString (js ''Option vide''))"
    by (simp add: questionFrom_def)
  from matches \<open>j < length (optionsOf (parsed ! i))\<close>
  show "isCorrect (options (quizQuestions ! i) ! j) =
      toBoolean (property (optionsOf (parsed ! i) ! j) (js ''isCorrect''))"
    by (simp add: questionFrom_def)
qed

theorem parseGeneratedQuiz_result_witness:
  \<open>JSON_parse (replaceLatex (cleanJsonString defaultsResponse)) =
     Some (JArray
       [JObject [(js ''isMultipleChoice'', JNumber 1 0),
                 (js ''options'', JArray [JObject [(js ''isCorrect'', JString (js ''yes''))],
                                           JObject [(js ''text'', JString []), (js ''isCorrect'', JNumber 0 (- 1))]])],
        JObject [(js ''questionText'', JString (js ''Q'')), (js ''options'', JNumber 7 0)]]) \<and>
   parseGeneratedQuiz exampleUuid defaultsResponse =
     Some [\<lparr>questionId = js ''uuid-0'', questionText = JString (js ''Question 1 sans texte''),
            options =
              [\<lparr>optionId = js ''uuid-1'', optionText = JString (js ''Option vide''), isCorrect = True\<rparr>,
               \<lparr>optionId = js ''uuid-2'', optionText = JString (js ''Option vide''), isCorrect = False\<rparr>],
            isMultipleChoice = True\<rparr>,
           \<lparr>questionId = js ''uuid-3'', questionText = JString (js ''Q''), options = [],
            isMultipleChoice = False\<rparr>] \<and>
   parseGeneratedQuiz exampleUuid (js ''{"questionText":"Q"}'') = None \<and>
   parseGeneratedQuiz exampleUuid (js ''[{"questionText":"Q"},]'') = None \<and>
   parseGeneratedQuiz exampleUuid (js ''[{"options":[null]}]'') = None\<close>
proof -
  let ?first = "JObject [(js ''isMultipleChoice'', JNumber 1 0),
                 (js ''options'', JArray [JObject [(js ''isCorrect'', JString (js ''yes''))],
                                           JObject [(js ''text'', JString []), (js ''isCorrect'', JNumber 0 (- 1))]])]"
  let ?second = "JObject [(js ''questionText'', JString (js ''Q'')), (js ''options'', JNumber 7 0)]"
  have parsed: "JSON_parse (replaceLatex (cleanJsonString defaultsResponse)) =
      Some (JArray [?first, ?second])"
    by (simp add: defaultsResponse_def parser_defs)
  have evaluated: "parseGeneratedQuiz exampleUuid defaultsResponse =
     Some [\<lparr>questionId = js ''uuid-0'', questionText = JString (js ''Question 1 sans texte''),
            options =
              [\<lparr>optionId = js ''uuid-1'', optionText = JString (js ''Option vide''), isCorrect = True\<rparr>,
               \<lparr>optionId = js ''uuid-2'', optionText = JString (js ''Option vide''), isCorrect = False\<rparr>],
            isMultipleChoice = True\<rparr>,
           \<lparr>questionId = js ''uuid-3'', questionText = JString (js ''Q''), options = [],
            isMultipleChoice = False\<rparr>]"
    by (simp add: defaultsResponse_def parser_defs)
  note both = conjI [OF parsed evaluated]
  note len =
    parseGeneratedQuiz_result [of exampleUuid defaultsResponse, THEN conjunct2, THEN spec, THEN spec,
      THEN mp, OF both, THEN conjunct1]
  have object: \<open>JSON_parse (replaceLatex (cleanJsonString (js ''{"questionText":"Q"}''))) =
      Some (JObject [(js ''questionText'', JString (js ''Q''))])\<close>
    by (simp add: parser_defs)
  from parseGeneratedQuiz_result [of exampleUuid \<open>js ''{"questionText":"Q"}''\<close>] object
  have 1: \<open>parseGeneratedQuiz exampleUuid (js ''{"questionText":"Q"}'') = None\<close>
    by simp
  have invalid: \<open>JSON_parse (replaceLatex (cleanJsonString (js ''[{"questionText":"Q"},]''))) = None\<close>
    by (simp add: parser_defs)
  from parseGeneratedQuiz_result [of exampleUuid \<open>js ''[{"questionText":"Q"},]''\<close>] invalid
  have 2: \<open>parseGeneratedQuiz exampleUuid (js ''[{"questionText":"Q"},]'') = None\<close>
    by simp
  have null: \<open>JSON_parse (replaceLatex (cleanJsonString (js ''[{"options":[null]}]''))) =
      Some (JArray [JObject [(js ''options'', JArray [JNull])]])\<close>
    by (simp add: parser_defs)
  have \<open>throwsTypeError (JObject [(js ''options'', JArray [JNull])])\<close>
    by (simp add: throwsTypeError_def optionsOf_def js_def)
  with parseGeneratedQuiz_result [of exampleUuid \<open>js ''[{"options":[null]}]''\<close>] null
  have 3: \<open>parseGeneratedQuiz exampleUuid (js ''[{"options":[null]}]'') = None\<close>
    by simp
  from parsed evaluated 1 2 3 len show ?thesis
    by simp
qed

subsection \<open>The number of options\<close>

text \<open>
  The parser takes the options as the response gives them. A response with one
  option for a question yields a question with one option.
\<close>

theorem parsed_option_count_counterexample:
  \<open>parseGeneratedQuiz exampleUuid oneOptionResponse =
     Some [\<lparr>questionId = js ''uuid-0'', questionText = JString (js ''1+1 ?''),
            options = [\<lparr>optionId = js ''uuid-1'', optionText = JString (js ''2''), isCorrect = True\<rparr>],
            isMultipleChoice = False\<rparr>]\<close>
  by (simp add: oneOptionResponse_def parser_defs)

text \<open>
  Claim C1, as the code has it. Every question of a list returned by
  \<open>parseGeneratedQuiz\<close>, and the question that \<open>generateAlternativeQuestion\<close> takes
  from it, has exactly as many options as the \<open>options\<close> array of its JSON element
  has elements, and none when \<open>options\<close> is not an array: four when the response
  gives four.
\<close>

theorem parsed_option_count:
  assumes "JSON_parse (replaceLatex (cleanJsonString s)) = Some (JArray parsed)"
  shows "(\<forall>quizQuestions i. parseGeneratedQuiz uuid s = Some quizQuestions \<and> i < length quizQuestions \<longrightarrow>
            length (options (quizQuestions ! i)) = length (optionsOf (parsed ! i))) \<and>
         (\<forall>quizQuestion. alternativeOfResponse uuid s = Some quizQuestion \<longrightarrow>
            length (options quizQuestion) = length (optionsOf (parsed ! 0)))"
proof (intro conjI allI impI)
  fix quizQuestions i
  assume a: "parseGeneratedQuiz uuid s = Some quizQuestions \<and> i < length quizQuestions"
  then have mapped: "mapQuestions uuid 0 0 parsed = Some quizQuestions"
    using parseGeneratedQuiz_array [OF assms, of uuid] by simp
  from a mapQuestions_Some(1) [OF mapped] have "i < length parsed"
    by simp
  from mapQuestions_Some(2) [OF mapped this]
  show "length (options (quizQuestions ! i)) = length (optionsOf (parsed ! i))"
    by (simp add: questionFrom_def)
next
  fix quizQuestion
  assume "alternativeOfResponse uuid s = Some quizQuestion"
  then obtain rest where all: "parseGeneratedQuiz uuid s = Some (quizQuestion # rest)"
    by (auto simp: alternativeOfResponse_def split: option.splits list.splits)
  then have mapped: "mapQuestions uuid 0 0 parsed = Some (quizQuestion # rest)"
    using parseGeneratedQuiz_array [OF assms, of uuid] by simp
  from mapQuestions_Some(1) [OF mapped] have "0 < length parsed"
    by auto
  from mapQuestions_Some(2) [OF mapped this]
  show "length (options quizQuestion) = length (optionsOf (parsed ! 0))"
    by (simp add: questionFrom_def)
qed

theorem parsed_option_count_witness:
  \<open>JSON_parse (replaceLatex (cleanJsonString fourOptionResponse)) =
     Some (JArray [JObject
       [(js ''questionText'', JString (js ''1+1 ?'')),
        (js ''options'', JArray
           [JObject [(js ''text'', JString (js ''1''))],
            JObject [(js ''text'', JString (js ''2'')), (js ''isCorrect'', JBool True)],
            JObject [(js ''text'', JString (js ''3''))],
            JObject [(js ''text'', JString (js ''4''))]])]]) \<and>
   map_option (map (\<lambda>q. length (options q))) (parseGeneratedQuiz exampleUuid fourOptionResponse) =
     Some [4] \<and>
   map_option (\<lambda>q. length (options q)) (alternativeOfResponse exampleUuid fourOptionResponse) = Some 4\<close>
proof -
  let ?element = "JObject
       [(js ''questionText'', JString (js ''1+1 ?'')),
        (js ''options'', JArray
           [JObject [(js ''text'', JString (js ''1''))],
            JObject [(js ''text'', JString (js ''2'')), (js ''isCorrect'', JBool True)],
            JObject [(js ''text'', JString (js ''3''))],
            JObject [(js ''text'', JString (js ''4''))]])]"
  have parsed: "JSON_parse (replaceLatex (cleanJsonString fourOptionResponse)) = Some (JArray [?element])"
    by (simp add: fourOptionResponse_def parser_defs)
  obtain quizQuestion where
    result: "parseGeneratedQuiz exampleUuid fourOptionResponse = Some [quizQuestion]"
    by (simp add: fourOptionResponse_def parser_defs)
  then have first: "alternativeOfResponse exampleUuid fourOptionResponse = Some quizQuestion"
    by (simp add: alternativeOfResponse_def)
  have four: "length (optionsOf ([?element] ! 0)) = 4"
    by (simp add: optionsOf_def js_def)
  from parsed_option_count [OF parsed, of exampleUuid] result first four
  have "length (options ([quizQuestion] ! 0)) = 4" and "length (options quizQuestion) = 4"
    by auto
  with parsed result first show ?thesis
    by simp
qed

subsection \<open>Code fences\<close>

lemma backquote_not_space: "\<not> isWhiteSpace 96"
  by (simp add: isWhiteSpace_def)

lemma newline_space: "isWhiteSpace 10"
  by (simp add: isWhiteSpace_def)

lemma fence_chars: "js ''```'' = [96, 96, 96]" "js ''json'' = [106, 115, 111, 110]"
  by (simp_all add: js_def)

lemma trimEnd_idem: "trimEnd (trimEnd s) = trimEnd s"
  by (simp add: trimEnd_def)

lemma trimEnd_prefix: "\<exists>r. s = trimEnd s @ r"
proof
  show "s = trimEnd s @ rev (takeWhile isWhiteSpace (rev s))"
    unfolding trimEnd_def
    by (metis rev_append rev_rev_ident takeWhile_dropWhile_id)
qed

lemma trimStart_no_space:
  assumes "s \<noteq> []" "\<not> isWhiteSpace (hd s)"
  shows "trimStart s = s"
  using assms by (cases s) (simp_all add: trimStart_def)

lemma trimStart_trimEnd: "trimStart (trimEnd (trimStart s)) = trimEnd (trimStart s)"
proof (cases "trimEnd (trimStart s) = []")
  case True
  then show ?thesis by (simp add: trimStart_def)
next
  case False
  obtain r where r: "trimStart s = trimEnd (trimStart s) @ r"
    using trimEnd_prefix by blast
  with False have "hd (trimEnd (trimStart s)) = hd (trimStart s)"
    by (metis hd_append2)
  moreover have "trimStart s \<noteq> []"
    using r False by auto
  then have "\<not> isWhiteSpace (hd (trimStart s))"
    unfolding trimStart_def by (rule hd_dropWhile)
  ultimately show ?thesis
    using False by (simp add: trimStart_no_space)
qed

lemma trim_idem: "trim (trim s) = trim s"
  by (simp add: trim_def trimStart_trimEnd trimEnd_idem)

lemma trimEnd_snoc_space: "isWhiteSpace c \<Longrightarrow> trimEnd (s @ [c]) = trimEnd s"
  by (simp add: trimEnd_def)

lemma trimEnd_no_space: "\<not> isWhiteSpace c \<Longrightarrow> trimEnd (s @ [c]) = s @ [c]"
  by (simp add: trimEnd_def)

lemma trim_fenced: "trim (fenced tag s) = fenced tag s"
proof -
  have front: "fenced tag s = 96 # (96 # 96 # tag @ 10 # s @ [10, 96, 96, 96])"
    by (simp add: fenced_def fence_chars)
  have ending: "fenced tag s = (96 # 96 # 96 # tag @ 10 # s @ [10, 96, 96]) @ [96]"
    by (simp add: fenced_def fence_chars)
  have "trimStart (fenced tag s) = fenced tag s"
    using backquote_not_space by (subst (1 2) front) (simp add: trimStart_def)
  moreover have "trimEnd (fenced tag s) = fenced tag s"
    by (subst (1 2) ending) (rule trimEnd_no_space [OF backquote_not_space])
  ultimately show ?thesis
    by (simp add: trim_def)
qed

lemma matchesJson_head: "c \<noteq> 106 \<Longrightarrow> c \<noteq> 74 \<Longrightarrow> \<not> matchesJson (c # rest)"
  by (auto simp: matchesJson_def split: list.splits)

lemma body_of_fenced:
  "dropWhile isWhiteSpace (10 # s @ [10, 96, 96, 96]) =
     (if trimStart s = [] then [96, 96, 96] else trimStart s @ [10, 96, 96, 96])"
proof (cases "trimStart s = []")
  case True
  then have "\<forall>c\<in>set s. isWhiteSpace c"
    by (simp add: trimStart_def dropWhile_eq_Nil_conv)
  then have "dropWhile isWhiteSpace (s @ [10, 96, 96, 96]) = dropWhile isWhiteSpace [10, 96, 96, 96]"
    by (simp add: dropWhile_append2)
  with True show ?thesis
    using newline_space backquote_not_space by simp
next
  case False
  then have "\<exists>c\<in>set s. \<not> isWhiteSpace c"
    by (auto simp: trimStart_def dropWhile_eq_Nil_conv)
  then have "dropWhile isWhiteSpace (s @ [10, 96, 96, 96]) = dropWhile isWhiteSpace s @ [10, 96, 96, 96]"
    by (auto simp: dropWhile_append1)
  with False show ?thesis
    using newline_space by (simp add: trimStart_def)
qed

lemma fenceMatch_fenced:
  assumes "tag = [] \<or> tag = js ''json''"
  shows "fenceMatch (fenced tag s) = Some (trim s)"
proof -
  define body where "body = dropWhile isWhiteSpace (10 # s @ [10, 96, 96, 96])"
  have start: "take 3 (fenced tag s) = js ''```''"
    by (simp add: fenced_def fence_chars)
  have afterJson:
    "(if matchesJson (drop 3 (fenced tag s)) then drop 4 (drop 3 (fenced tag s))
      else drop 3 (fenced tag s)) = 10 # s @ [10, 96, 96, 96]"
  proof (cases "tag = []")
    case True
    then have "drop 3 (fenced tag s) = 10 # s @ [10, 96, 96, 96]"
      by (simp add: fenced_def fence_chars)
    then show ?thesis
      by (simp add: matchesJson_head)
  next
    case False
    with assms have "drop 3 (fenced tag s) = 106 # 115 # 111 # 110 # 10 # s @ [10, 96, 96, 96]"
      by (simp add: fenced_def fence_chars)
    then show ?thesis
      by (simp add: matchesJson_def)
  qed
  have match: "fenceMatch (fenced tag s) =
      (if 3 \<le> length body \<and> drop (length body - 3) body = js ''```''
       then Some (trimEnd (take (length body - 3) body)) else None)"
    unfolding fenceMatch_def Let_def body_def using start afterJson by simp
  have body: "body = (if trimStart s = [] then [96, 96, 96] else trimStart s @ [10, 96, 96, 96])"
    unfolding body_def by (rule body_of_fenced)
  show ?thesis
  proof (cases "trimStart s = []")
    case True
    then have "body = [96, 96, 96]"
      using body by simp
    then show ?thesis
      using True by (simp add: match fence_chars trim_def trimEnd_def)
  next
    case False
    then have "body = (trimStart s @ [10]) @ [96, 96, 96]"
      using body by simp
    then show ?thesis
      using newline_space
      by (simp add: match fence_chars trim_def trimEnd_snoc_space del: append_assoc append.simps)
  qed
qed

lemma tokenize_backquote: "tokenize (96 # rest) = None"
  by (simp add: isJsonWhiteSpace_def isDigit_def js_def)

lemma JSON_parse_fenced: "JSON_parse (replaceLatex (fenced tag s)) = None"
proof -
  have "replaceLatex (fenced tag s) = 96 # replaceLatex (96 # 96 # tag @ 10 # s @ [10, 96, 96, 96])"
    by (simp add: fenced_def fence_chars)
  then have "tokenize (replaceLatex (fenced tag s)) = None"
    by (simp only: tokenize_backquote)
  then show ?thesis
    by (simp add: JSON_parse_def)
qed

lemma JSON_parse_empty: "JSON_parse [] = None"
  by (simp add: JSON_parse_def)

lemma cleanJsonString_fenced:
  assumes "tag = [] \<or> tag = js ''json''"
  shows "cleanJsonString (fenced tag s) = (if trim s \<noteq> [] then trim s else fenced tag s)"
  by (simp add: cleanJsonString_def trim_fenced fenceMatch_fenced [OF assms] trim_idem)

lemma parseGeneratedQuiz_fenced:
  assumes "tag = [] \<or> tag = js ''json''" and "cleanJsonString s = trim s"
  shows "parseGeneratedQuiz uuid (fenced tag s) = parseGeneratedQuiz uuid s"
proof (cases "trim s = []")
  case True
  then show ?thesis
    using assms(2)
    by (simp add: parseGeneratedQuiz_def cleanJsonString_fenced [OF assms(1)] JSON_parse_fenced
        JSON_parse_empty)
next
  case False
  then show ?thesis
    using assms(2) by (simp add: parseGeneratedQuiz_def cleanJsonString_fenced [OF assms(1)])
qed

text \<open>
  The fence is stripped once. A text that is itself inside a fence parses to the empty
  quiz, while the same text with one more fence around it is not valid JSON after
  the stripping.
\<close>

theorem fence_stripping_counterexample:
  "parseGeneratedQuiz exampleUuid (js ''```[]```'') = Some [] \<and>
   parseGeneratedQuiz exampleUuid (fenced (js ''json'') (js ''```[]```'')) = None"
  by (simp add: parser_defs)

text \<open>
  Claim C6, as the code has it. For every string \<open>s\<close> that the fence stripping leaves
  as it is but for the trimming (its trimmed form is not itself inside a fence),
  \<open>parseGeneratedQuiz\<close> returns for \<open>s\<close> between a first line of three backquotes,
  with or without \<open>json\<close>, and a last line of three backquotes what it returns for
  \<open>s\<close>, the calls of \<open>randomUUID\<close> returning the same identifiers in both runs.
\<close>

theorem fence_stripping_commutes:
  assumes "cleanJsonString s = trim s"
  shows "parseGeneratedQuiz uuid (fenced (js ''json'') s) = parseGeneratedQuiz uuid s \<and>
         parseGeneratedQuiz uuid (fenced [] s) = parseGeneratedQuiz uuid s"
  using assms by (simp add: parseGeneratedQuiz_fenced)

theorem fence_stripping_commutes_witness:
  \<open>cleanJsonString oneOptionResponse = trim oneOptionResponse \<and>
   parseGeneratedQuiz exampleUuid (fenced (js ''json'') oneOptionResponse) =
     Some [\<lparr>questionId = js ''uuid-0'', questionText = JString (js ''1+1 ?''),
            options = [\<lparr>optionId = js ''uuid-1'', optionText = JString (js ''2''), isCorrect = True\<rparr>],
            isMultipleChoice = False\<rparr>] \<and>
   parseGeneratedQuiz exampleUuid (fenced [] oneOptionResponse) =
     Some [\<lparr>questionId = js ''uuid-0'', questionText = JString (js ''1+1 ?''),
            options = [\<lparr>optionId = js ''uuid-1'', optionText = JString (js ''2''), isCorrect = True\<rparr>],
            isMultipleChoice = False\<rparr>]\<close>
proof -
  have unfenced: "cleanJsonString oneOptionResponse = trim oneOptionResponse"
    by (simp add: oneOptionResponse_def parser_defs)
  have "parseGeneratedQuiz exampleUuid oneOptionResponse =
     Some [\<lparr>questionId = js ''uuid-0'', questionText = JString (js ''1+1 ?''),
            options = [\<lparr>optionId = js ''uuid-1'', optionText = JString (js ''2''), isCorrect = True\<rparr>],
            isMultipleChoice = False\<rparr>]"
    by (simp add: oneOptionResponse_def parser_defs)
  with fence_stripping_commutes [OF unfenced, of exampleUuid] unfenced show ?thesis
    by simp
qed

section \<open>Option deletion on the questions the parser creates\<close>

text \<open>
  The identifiers of a question's options are the results of consecutive calls of
  \<open>randomUUID\<close>. Where no two calls return the same identifier, the options of every
  question of the parser have pairwise distinct identifiers.
\<close>

lemma mapOptions_ids:
  assumes "mapOptions uuid k opts = Some (quizOptions, k')"
  shows "map optionId quizOptions = map uuid [k..<k + length opts]"
  using mapOptions_Some(2,3) [OF assms] by (intro nth_equalityI) simp_all

lemma distinct_uuids: "inj uuid \<Longrightarrow> distinct (map uuid [k..<n])"
  by (simp add: distinct_map inj_on_def inj_def)

lemma toQuizQuestion_distinct:
  assumes "inj uuid" and "toQuizQuestion uuid k index q = Some (quizQuestion, k')"
  shows "distinct (map optionId (options quizQuestion))"
proof -
  from assms(2) obtain quizOptions where
    mapped: "mapOptions uuid (Suc k) (optionsOf q) = Some (quizOptions, k')" and
    opts: "options quizQuestion = quizOptions"
    unfolding toQuizQuestion_optionsOf by (auto split: if_splits option.splits)
  have "distinct (map optionId quizOptions)"
    unfolding mapOptions_ids [OF mapped] using assms(1) by (rule distinct_uuids)
  then show ?thesis
    by (simp only: opts)
qed

lemma mapQuestions_distinct:
  assumes "inj uuid"
  shows "mapQuestions uuid k index parsed = Some quizQuestions \<Longrightarrow>
         quizQuestion \<in> set quizQuestions \<Longrightarrow>
         distinct (map optionId (options quizQuestion))"
proof (induction parsed arbitrary: k index quizQuestions)
  case Nil
  then show ?case by simp
next
  case (Cons q parsed)
  from Cons.prems(1) obtain first k' rest where
    head: "toQuizQuestion uuid k index q = Some (first, k')" and
    tail: "mapQuestions uuid k' (Suc index) parsed = Some rest" and
    whole: "quizQuestions = first # rest"
    by (auto split: option.splits)
  from Cons.prems(2) whole consider "quizQuestion = first" | "quizQuestion \<in> set rest"
    by auto
  then show ?case
  proof cases
    case 1
    then show ?thesis
      using toQuizQuestion_distinct [OF assms head] by simp
  next
    case 2
    then show ?thesis
      using Cons.IH [OF tail] by simp
  qed
qed

lemma parseGeneratedQuiz_distinct:
  assumes "inj uuid" and "parseGeneratedQuiz uuid s = Some quizQuestions"
    and "quizQuestion \<in> set quizQuestions"
  shows "distinct (map optionId (options quizQuestion))"
proof -
  from assms(2) obtain parsed where
    "JSON_parse (replaceLatex (cleanJsonString s)) = Some (JArray parsed)"
    using parseGeneratedQuiz_Some by blast
  then have "mapQuestions uuid 0 0 parsed = Some quizQuestions"
    using assms(2) parseGeneratedQuiz_array [of s parsed uuid] by simp
  then show ?thesis
    using assms(3) by (rule mapQuestions_distinct [OF assms(1)])
qed

text \<open>The example identifiers are pairwise distinct.\<close>

lemma digitsValue_snoc: "digitsValue (ds @ [d]) = 10 * digitsValue ds + int (d - 48)"
  by (simp add: digitsValue_def)

lemma digitsValue_decimal: "digitsValue (decimal n) = int n"
proof (induction n rule: decimal.induct)
  case (1 n)
  show ?case
  proof (cases "n < 10")
    case True
    then show ?thesis
      by (subst decimal.simps) (simp add: digitsValue_def)
  next
    case False
    then have "digitsValue (decimal n) = 10 * int (n div 10) + int (n mod 10)"
      using "1.IH" by (subst decimal.simps) (simp add: digitsValue_snoc)
    then show ?thesis
      by (simp add: zdiv_int zmod_int)
  qed
qed

lemma inj_decimal: "inj decimal"
proof (rule injI)
  fix a b
  assume "decimal a = decimal b"
  then have "digitsValue (decimal a) = digitsValue (decimal b)"
    by simp
  then show "a = b"
    by (simp add: digitsValue_decimal)
qed

lemma inj_exampleUuid: "inj exampleUuid"
  using inj_decimal by (auto simp: exampleUuid_def inj_def)

text \<open>
  Claim C5. \<open>deleteOption\<close> leaves a list of at most two options unchanged, and from
  a longer list it removes exactly the options with the given identifier, the others
  keeping their order. Consequently a question that the program created with at
  least two options keeps at least two, in the edited list and in the question itself,
  through every sequence of editing steps. A question the program created is one with the
  option identifiers that \<open>parseGeneratedQuiz\<close> gave to a question of its result,
  the calls of \<open>randomUUID\<close> returning pairwise different identifiers.
\<close>

theorem deleteOption_keeps_two:
  "(length (editedOptions e) \<le> 2 \<longrightarrow> deleteOption oid e = e) \<and>
   (2 < length (editedOptions e) \<longrightarrow>
      editedOptions (deleteOption oid e) = filter (\<lambda>opt. optionId opt \<noteq> oid) (editedOptions e)) \<and>
   (inj uuid \<and> parseGeneratedQuiz uuid s = Some quizQuestions \<and> created \<in> set quizQuestions \<and>
    map optionId (options q) = map optionId (options created) \<and> 2 \<le> length (options q) \<longrightarrow>
      2 \<le> length (editedOptions (editorRun steps (resetFromQuestion q))) \<and>
      2 \<le> length (options (question (editorRun steps (resetFromQuestion q)))))"
proof (intro conjI impI)
  show "length (editedOptions e) \<le> 2 \<Longrightarrow> deleteOption oid e = e"
    by (simp add: deleteOption_def)
  show "2 < length (editedOptions e) \<Longrightarrow>
      editedOptions (deleteOption oid e) = filter (\<lambda>opt. optionId opt \<noteq> oid) (editedOptions e)"
    by (simp add: deleteOption_def)
next
  assume a: "inj uuid \<and> parseGeneratedQuiz uuid s = Some quizQuestions \<and> created \<in> set quizQuestions \<and>
    map optionId (options q) = map optionId (options created) \<and> 2 \<le> length (options q)"
  then have "distinct (map optionId (options created))"
    using parseGeneratedQuiz_distinct [of uuid s quizQuestions created] by simp
  with a have "wellFormed (resetFromQuestion q)"
    by (simp add: wellFormed_def resetFromQuestion_def)
  then have run: "wellFormed (editorRun steps (resetFromQuestion q))"
    by (rule wellFormed_editorRun)
  from run show "2 \<le> length (editedOptions (editorRun steps (resetFromQuestion q)))"
    by (simp add: wellFormed_def)
  from run show "2 \<le> length (options (question (editorRun steps (resetFromQuestion q))))"
    by (simp add: wellFormed_def)
qed

theorem deleteOption_keeps_two_witness:
  "inj exampleUuid \<and>
   map_option (map (\<lambda>created. map optionId (options created)))
     (parseGeneratedQuiz exampleUuid fourOptionResponse) =
     Some [map optionId [exampleOption ''uuid-1'' False, exampleOption ''uuid-2'' True,
                         exampleOption ''uuid-3'' False, exampleOption ''uuid-4'' False]] \<and>
   editedOptions (deleteOption (js ''uuid-1'') (resetFromQuestion (exampleQuestion ''uuid-0'' False
      [exampleOption ''uuid-1'' False, exampleOption ''uuid-2'' True,
       exampleOption ''uuid-3'' False, exampleOption ''uuid-4'' False]))) =
     [exampleOption ''uuid-2'' True, exampleOption ''uuid-3'' False, exampleOption ''uuid-4'' False] \<and>
   deleteOption (js ''uuid-2'') (resetFromQuestion (exampleQuestion ''uuid-0'' False
      [exampleOption ''uuid-1'' False, exampleOption ''uuid-2'' True])) =
     resetFromQuestion (exampleQuestion ''uuid-0'' False
      [exampleOption ''uuid-1'' False, exampleOption ''uuid-2'' True]) \<and>
   2 \<le> length (editedOptions (editorRun
      [(False, DeleteOption (js ''uuid-1'')), (False, DeleteOption (js ''uuid-3'')),
       (False, DeleteOption (js ''uuid-4'')), (False, SaveChanges)]
      (resetFromQuestion (exampleQuestion ''uuid-0'' False
        [exampleOption ''uuid-1'' False, exampleOption ''uuid-2'' True,
         exampleOption ''uuid-3'' False, exampleOption ''uuid-4'' False]))))"
proof -
  let ?q4 = "exampleQuestion ''uuid-0'' False
      [exampleOption ''uuid-1'' False, exampleOption ''uuid-2'' True,
       exampleOption ''uuid-3'' False, exampleOption ''uuid-4'' False]"
  let ?q2 = "exampleQuestion ''uuid-0'' False
      [exampleOption ''uuid-1'' False, exampleOption ''uuid-2'' True]"
  let ?steps = "[(False, DeleteOption (js ''uuid-1'')), (False, DeleteOption (js ''uuid-3'')),
       (False, DeleteOption (js ''uuid-4'')), (False, SaveChanges)]"
  obtain created where
    parsed: "parseGeneratedQuiz exampleUuid fourOptionResponse = Some [created]" and
    ids: "map optionId (options created) = map optionId (options ?q4)"
    by (simp add: fourOptionResponse_def parser_defs example_defs)
  have four: "length (editedOptions (resetFromQuestion ?q4)) = 4"
    by (simp add: example_defs)
  have two: "length (editedOptions (resetFromQuestion ?q2)) \<le> 2"
    by (simp add: example_defs)
  have filtered: "filter (\<lambda>opt. optionId opt \<noteq> js ''uuid-1'') (editedOptions (resetFromQuestion ?q4)) =
      [exampleOption ''uuid-2'' True, exampleOption ''uuid-3'' False, exampleOption ''uuid-4'' False]"
    by (simp add: example_defs)
  have start: "inj exampleUuid \<and> parseGeneratedQuiz exampleUuid fourOptionResponse = Some [created] \<and>
      created \<in> set [created] \<and> map optionId (options ?q4) = map optionId (options created) \<and>
      2 \<le> length (options ?q4)"
    using inj_exampleUuid parsed ids by (simp add: exampleQuestion_def)
  from deleteOption_keeps_two
      [of "resetFromQuestion ?q4" "js ''uuid-1''" exampleUuid fourOptionResponse "[created]" created ?q4 ?steps]
    four start filtered
  have "editedOptions (deleteOption (js ''uuid-1'') (resetFromQuestion ?q4)) =
          [exampleOption ''uuid-2'' True, exampleOption ''uuid-3'' False, exampleOption ''uuid-4'' False]"
    and "2 \<le> length (editedOptions (editorRun ?steps (resetFromQuestion ?q4)))"
    by simp_all
  moreover from deleteOption_keeps_two
      [of "resetFromQuestion ?q2" "js ''uuid-2''" exampleUuid fourOptionResponse "[created]" created ?q4 ?steps]
    two
  have "deleteOption (js ''uuid-2'') (resetFromQuestion ?q2) = resetFromQuestion ?q2"
    by simp
  moreover have "map_option (map (\<lambda>created. map optionId (options created)))
     (parseGeneratedQuiz exampleUuid fourOptionResponse) =
     Some [map optionId [exampleOption ''uuid-1'' False, exampleOption ''uuid-2'' True,
                         exampleOption ''uuid-3'' False, exampleOption ''uuid-4'' False]]"
    using parsed ids by (simp add: exampleQuestion_def)
  ultimately show ?thesis
    using inj_exampleUuid by simp
qed

end
